theory Spec2Isabelle
  imports Complex_Main "HOL-Library.Log_Nat"
begin

section \<open>Data model (config.go)\<close>

text \<open>
  The mode types of the source are string types (\<^verbatim>\<open>type StopModeType string\<close> and so on) whose
  values come from \<^verbatim>\<open>strategies.json\<close>, so any string can occur; they stay strings here,
  with the source's named constants.
\<close>

type_synonym StopModeType = string
type_synonym TimeModeType = string
type_synonym SubmitModeType = string

definition StopModeRating :: StopModeType where
  "StopModeRating = ''stop_at_rating''"

definition StopModePuzzles :: StopModeType where
  "StopModePuzzles = ''stop_at_puzzles_completed''"

definition TimeModeLegit :: TimeModeType where
  "TimeModeLegit = ''legit''"

definition TimeModeHour :: TimeModeType where
  "TimeModeHour = ''hour''"

definition TimeModeZero :: TimeModeType where
  "TimeModeZero = ''zero''"

definition SubmitModeASAP :: SubmitModeType where
  "SubmitModeASAP = ''asap''"

definition SubmitModeLegit :: SubmitModeType where
  "SubmitModeLegit = ''legit''"

text \<open>
  A Go \<^verbatim>\<open>int\<close> is a 64-bit two's complement integer: an \<^typ>\<open>int\<close> here, kept in range by
  \<open>wrap64\<close> wherever the source does arithmetic on it.
\<close>

definition wrap64 :: "int \<Rightarrow> int" where
  "wrap64 x = (x + 2 ^ 63) mod 2 ^ 64 - 2 ^ 63"

text \<open>
  A \<^verbatim>\<open>time.Time\<close> is an instant, counted here in nanoseconds from Go's zero time
  (January 1, year 1, 00:00 UTC), so that \<^verbatim>\<open>t.IsZero()\<close> is \<open>t = 0\<close>.
  A \<^verbatim>\<open>time.Duration\<close> is an int64 count of nanoseconds.
\<close>

type_synonym Time = int
type_synonym Duration = int

definition IsZero :: "Time \<Rightarrow> bool" where
  "IsZero t = (t = 0)"

definition Second :: Duration where
  "Second = 1000000000"

definition Hour :: Duration where
  "Hour = 3600 * Second"

definition minDuration :: Duration where
  "minDuration = - (2 ^ 63)"

definition maxDuration :: Duration where
  "maxDuration = 2 ^ 63 - 1"

text \<open>\<^verbatim>\<open>t.Sub(u)\<close>: the difference, saturated to the range of a Duration.\<close>

definition Sub :: "Time \<Rightarrow> Time \<Rightarrow> Duration" where
  "Sub t u = (if t - u < minDuration then minDuration
              else if maxDuration < t - u then maxDuration else t - u)"

definition Add :: "Time \<Rightarrow> Duration \<Rightarrow> Time" where
  "Add t d = t + d"

text \<open>
  A \<^verbatim>\<open>float64\<close> is the rational number it denotes (every finite double is one); the
  operations round, see \<open>fl\<close> below.
\<close>

type_synonym float64 = rat

record Strategy =
  Name :: string
  StopMode :: StopModeType
  PuzzlesPerDay :: int
  TargetRating :: int
  TimeMode :: TimeModeType
  SubmitMode :: SubmitModeType

record SolvedPuzzle =
  PuzzleID :: string
  Timestamp :: Time
  RatingBefore :: int
  RatingAfter :: int
  TimeTaken :: float64
  Success :: bool

record Account =
  Username :: string
  Cookie :: string
  IsPremium :: bool
  StrategyName :: string
  PremiumExpiry :: Time
  LastRun :: Time
  LastRating :: int

text \<open>
  \<^verbatim>\<open>ProcessResult\<close> (main.go). A Go \<^verbatim>\<open>error\<close> is its message, \<open>None\<close> for \<^verbatim>\<open>nil\<close>; the
  strategy pointer is \<open>None\<close> for \<^verbatim>\<open>nil\<close>.
\<close>

record ProcessResult =
  AccountUsername :: string
  PuzzlesSolved :: int
  StrategyPtr :: "Strategy option"
  Error :: "string option"

section \<open>float64 arithmetic\<close>

text \<open>
  IEEE 754 binary64, round to nearest, ties to even, on the rationals: \<open>ilog2 a\<close> is the
  binary exponent of a positive \<open>a\<close>, and \<open>fl x\<close> rounds \<open>x\<close> to the nearest multiple of the
  unit in the last place of its binade (53 significant bits; below \<open>2 powi (-1022)\<close> the
  spacing of the subnormal numbers). Overflow to infinity is not modelled: every value
  the program computes with these operations lies below 5401.
\<close>

definition ilog2 :: "rat \<Rightarrow> int" where
  "ilog2 a = (if 1 \<le> a then bitlen \<lfloor>a\<rfloor> - 1 else - bitlen (\<lceil>1 / a\<rceil> - 1))"

definition roundHalfEven :: "rat \<Rightarrow> int" where
  "roundHalfEven y =
     (let f = \<lfloor>y\<rfloor>; d = y - of_int f
      in if d < 1 / 2 then f else if 1 / 2 < d then f + 1 else if even f then f else f + 1)"

definition ulp :: "rat \<Rightarrow> rat" where
  "ulp a = 2 powi (max (ilog2 a) (- 1022) - 52)"

definition fl :: "rat \<Rightarrow> float64" where
  "fl x = (if x = 0 then 0
           else sgn x * (of_int (roundHalfEven (\<bar>x\<bar> / ulp \<bar>x\<bar>)) * ulp \<bar>x\<bar>))"

definition isFloat64 :: "rat \<Rightarrow> bool" where
  "isFloat64 x = (fl x = x)"

definition fmul :: "float64 \<Rightarrow> float64 \<Rightarrow> float64" where
  "fmul x y = fl (x * y)"

definition fadd :: "float64 \<Rightarrow> float64 \<Rightarrow> float64" where
  "fadd x y = fl (x + y)"

text \<open>The largest float64 below 1, which is also the largest value of \<^verbatim>\<open>rand.Float64()\<close>.\<close>

definition maxBelowOne :: float64 where
  "maxBelowOne = 1 - 1 / 2 ^ 53"

text \<open>
  \<^verbatim>\<open>time.Duration(f)\<close> for a float64 \<open>f\<close>: Go's conversion of a floating-point number to an
  integer discards the fraction (truncation towards zero).
\<close>

definition truncToInt64 :: "float64 \<Rightarrow> int" where
  "truncToInt64 f = (if 0 \<le> f then \<lfloor>f\<rfloor> else \<lceil>f\<rceil>)"

section \<open>The live status surface (Logger)\<close>

text \<open>
  What the logger writes to the terminal: the two ANSI sequences of \<^verbatim>\<open>ansiMoveUp\<close> and
  \<^verbatim>\<open>ansiClearLine\<close>, a line (\<^verbatim>\<open>fmt.Println\<close>) and formatted text (\<^verbatim>\<open>fmt.Printf\<close>, with the
  text already formatted).
\<close>

datatype TermWrite = AnsiMoveUp | AnsiClearLine | FmtPrintln string | FmtPrintf string

record Logger =
  persistentLines :: "string \<rightharpoonup> string"
  orderedKeys :: "string list"
  lastUpdateLines :: int

definition ansiCleanUp :: "int \<Rightarrow> TermWrite list" where
  "ansiCleanUp n = concat (replicate (nat n) [AnsiMoveUp, AnsiClearLine])"

definition NewLogger :: Logger where
  "NewLogger = \<lparr>persistentLines = Map.empty, orderedKeys = [], lastUpdateLines = 0\<rparr>"

text \<open>\<^verbatim>\<open>l.persistentLines[key]\<close>: the empty string for a key that is not in the map.\<close>

definition GetLine :: "Logger \<Rightarrow> string \<Rightarrow> string" where
  "GetLine l key = (case persistentLines l key of None \<Rightarrow> [] | Some v \<Rightarrow> v)"

definition updateDisplay :: "Logger \<Rightarrow> TermWrite list \<times> Logger" where
  "updateDisplay l =
     ((if 0 < lastUpdateLines l then ansiCleanUp (lastUpdateLines l) else [])
        @ map (\<lambda>key. FmtPrintln (GetLine l key)) (orderedKeys l),
      l\<lparr>lastUpdateLines := int (length (orderedKeys l))\<rparr>)"

definition AddLine :: "Logger \<Rightarrow> string \<Rightarrow> string \<Rightarrow> TermWrite list \<times> Logger" where
  "AddLine l key v =
     updateDisplay
       (l\<lparr>orderedKeys := (if persistentLines l key = None then orderedKeys l @ [key]
                          else orderedKeys l),
          persistentLines := (persistentLines l)(key \<mapsto> v)\<rparr>)"

text \<open>
  The loop of \<^verbatim>\<open>RemoveLine\<close> cuts the first element equal to the key out of the slice and
  breaks: \<^const>\<open>remove1\<close>.
\<close>

definition RemoveLine :: "Logger \<Rightarrow> string \<Rightarrow> TermWrite list \<times> Logger" where
  "RemoveLine l key =
     updateDisplay
       (l\<lparr>persistentLines := (persistentLines l)(key := None),
          orderedKeys := remove1 key (orderedKeys l)\<rparr>)"

text \<open>\<^verbatim>\<open>Printf\<close> and \<^verbatim>\<open>Println\<close>: erase the status block, print the text, draw the block again.\<close>

definition Printf :: "Logger \<Rightarrow> string \<Rightarrow> TermWrite list \<times> Logger" where
  "Printf l msg =
     (let pre = (if 0 < lastUpdateLines l then ansiCleanUp (lastUpdateLines l) else []);
          (ws, l') = updateDisplay (l\<lparr>lastUpdateLines := 0\<rparr>)
      in (pre @ [FmtPrintf msg] @ ws, l'))"

definition Println :: "Logger \<Rightarrow> string \<Rightarrow> TermWrite list \<times> Logger" where
  "Println l msg =
     (let pre = (if 0 < lastUpdateLines l then ansiCleanUp (lastUpdateLines l) else []);
          (ws, l') = updateDisplay (l\<lparr>lastUpdateLines := 0\<rparr>)
      in (pre @ [FmtPrintln msg] @ ws, l'))"

definition Flush :: "Logger \<Rightarrow> TermWrite list \<times> Logger" where
  "Flush l = updateDisplay l"

definition ClearAll :: "Logger \<Rightarrow> Logger" where
  "ClearAll l = l\<lparr>persistentLines := Map.empty, orderedKeys := [], lastUpdateLines := 0\<rparr>"

text \<open>The lines among the terminal writes: for a display refresh, the status block drawn.\<close>

fun printedLines :: "TermWrite list \<Rightarrow> string list" where
  "printedLines [] = []"
| "printedLines (FmtPrintln s # ws) = s # printedLines ws"
| "printedLines (_ # ws) = printedLines ws"

text \<open>The mutating operations of the logger, and a sequence of them applied in order.\<close>

datatype LoggerOp =
    OpAddLine string string
  | OpRemoveLine string
  | OpPrintf string
  | OpPrintln string
  | OpClearAll
  | OpFlush

fun applyOp :: "Logger \<Rightarrow> LoggerOp \<Rightarrow> Logger" where
  "applyOp l (OpAddLine key v) = snd (AddLine l key v)"
| "applyOp l (OpRemoveLine key) = snd (RemoveLine l key)"
| "applyOp l (OpPrintf msg) = snd (Printf l msg)"
| "applyOp l (OpPrintln msg) = snd (Println l msg)"
| "applyOp l OpClearAll = ClearAll l"
| "applyOp l OpFlush = snd (Flush l)"

definition applyOps :: "Logger \<Rightarrow> LoggerOp list \<Rightarrow> Logger" where
  "applyOps l ops = foldl applyOp l ops"

text \<open>The keys of a sequence in the order in which each is seen first.\<close>

fun firstSeen :: "string list \<Rightarrow> string list \<Rightarrow> string list" where
  "firstSeen seen [] = seen"
| "firstSeen seen (k # ks) = firstSeen (if k \<in> set seen then seen else seen @ [k]) ks"

text \<open>The invariant of the logger: each key of the map is listed once.\<close>

definition loggerInv :: "Logger \<Rightarrow> bool" where
  "loggerInv l = (distinct (orderedKeys l) \<and> set (orderedKeys l) = dom (persistentLines l))"

section \<open>Strings and formatting\<close>

text \<open>\<^verbatim>\<open>strings.HasPrefix\<close> and \<^verbatim>\<open>strings.Contains\<close>.\<close>

fun strings_HasPrefix :: "string \<Rightarrow> string \<Rightarrow> bool" where
  "strings_HasPrefix s [] = True"
| "strings_HasPrefix [] (p # ps) = False"
| "strings_HasPrefix (c # s) (p # ps) = (c = p \<and> strings_HasPrefix s ps)"

fun strings_Contains :: "string \<Rightarrow> string \<Rightarrow> bool" where
  "strings_Contains [] substr = (substr = [])"
| "strings_Contains (c # s) substr =
     (strings_HasPrefix (c # s) substr \<or> strings_Contains s substr)"

text \<open>The verb \<^verbatim>\<open>%d\<close> of \<^verbatim>\<open>fmt.Sprintf\<close>: decimal digits, a minus sign for a negative number.\<close>

fun showNat :: "nat \<Rightarrow> string" where
  "showNat n = (if n < 10 then [char_of (48 + n)]
                else showNat (n div 10) @ [char_of (48 + n mod 10)])"

declare showNat.simps [simp del]

definition showInt :: "int \<Rightarrow> string" where
  "showInt i = (if i < 0 then CHR ''-'' # showNat (nat (- i)) else showNat (nat i))"

section \<open>The remote service, the clock and the random source\<close>

text \<open>
  The HTTP exchanges, \<^verbatim>\<open>rand.Float64\<close>, the wall clock and the layout of a formatted time
  are outside the repository. They are parameters of the model: the \<open>n\<close>-th call of each
  endpoint is answered by the environment, with \<open>Inl\<close> a transport or decoding error
  (its message) and \<open>Inr\<close> the decoded fields the program reads:
  the \<^verbatim>\<open>Rating\<close> of a stats response, the body and \<^verbatim>\<open>LegacyPuzzleID\<close> of a puzzle response, the
  ratings of \<^verbatim>\<open>UserRatings\<close> of a submit response. \<open>wallClock env n\<close> is what \<^verbatim>\<open>time.Now()\<close>
  returns once \<open>n\<close> blocking operations (requests and sleeps) have completed.
\<close>

record Env =
  statsResp :: "nat \<Rightarrow> string + int"
  puzzleResp :: "nat \<Rightarrow> string + string \<times> string"
  submitResp :: "nat \<Rightarrow> string + int list"
  randFloat64 :: "nat \<Rightarrow> float64"
  wallClock :: "nat \<Rightarrow> Time"
  formatRFC822 :: "Time \<Rightarrow> string"

text \<open>
  The effects of a run, in order: each request with the cookie it carries (a submission
  also with the puzzle and the attempt duration, which the payload carries printed with
  three decimals), each \<^verbatim>\<open>time.Sleep\<close> with its argument, each webhook with the title and
  colour of its embed.
\<close>

datatype Event =
    EvGetTacticsStats string
  | EvGetNextPuzzle string
  | EvSubmitSolution string string float64
  | EvSleep Duration
  | EvWebhook string int

record World =
  nStats :: nat
  nPuzzle :: nat
  nSubmit :: nat
  nRand :: nat
  events :: "Event list"

definition Now :: "Env \<Rightarrow> World \<Rightarrow> Time" where
  "Now env w = wallClock env (length (events w))"

definition Since :: "Env \<Rightarrow> World \<Rightarrow> Time \<Rightarrow> Duration" where
  "Since env w t = Sub (Now env w) t"

definition Sleep :: "Duration \<Rightarrow> World \<Rightarrow> World" where
  "Sleep d w = w\<lparr>events := events w @ [EvSleep d]\<rparr>"

section \<open>Requests to the puzzle service\<close>

definition getTacticsStats :: "Env \<Rightarrow> string \<Rightarrow> World \<Rightarrow> (string + int) \<times> World" where
  "getTacticsStats env cookie w =
     (statsResp env (nStats w),
      w\<lparr>nStats := Suc (nStats w), events := events w @ [EvGetTacticsStats cookie]\<rparr>)"

definition getNextPuzzle :: "Env \<Rightarrow> string \<Rightarrow> World \<Rightarrow> (string + string) \<times> World" where
  "getNextPuzzle env cookie w =
     ((case puzzleResp env (nPuzzle w) of
         Inl err \<Rightarrow> Inl err
       | Inr (body, legacyPuzzleID) \<Rightarrow>
           if legacyPuzzleID = [] then Inl (''got empty puzzle ID. Response body: '' @ body)
           else Inr legacyPuzzleID),
      w\<lparr>nPuzzle := Suc (nPuzzle w), events := events w @ [EvGetNextPuzzle cookie]\<rparr>)"

text \<open>
  The \<^verbatim>\<open>switch strategy.TimeMode\<close> of \<^verbatim>\<open>submitSolution\<close>, for the value \<open>u\<close> that
  \<^verbatim>\<open>rand.Float64()\<close> returns. The product is rounded to a float64, then the sum; the
  constants \<^verbatim>\<open>0.1\<close> and \<^verbatim>\<open>0.3\<close> are the doubles nearest to them.
\<close>

definition attemptDurationOf :: "TimeModeType \<Rightarrow> float64 \<Rightarrow> float64" where
  "attemptDurationOf timeMode u =
     (if timeMode = ''hour'' then fadd 3600 (fmul u 1800)
      else if timeMode = ''legit'' then fadd 15 (fmul u 30)
      else if timeMode = ''zero'' then fadd (fl (1 / 10)) (fmul u (fl (3 / 10)))
      else 15)"

definition drawsRandom :: "TimeModeType \<Rightarrow> bool" where
  "drawsRandom timeMode = (timeMode = ''hour'' \<or> timeMode = ''legit'' \<or> timeMode = ''zero'')"

text \<open>
  \<^verbatim>\<open>submitSolution\<close> returns the decoded response with its \<^verbatim>\<open>AttemptDuration\<close> set to the
  duration drawn: here the ratings of \<^verbatim>\<open>UserRatings\<close> and that duration.
\<close>

definition submitSolution ::
  "Env \<Rightarrow> string \<Rightarrow> string \<Rightarrow> Strategy \<Rightarrow> World \<Rightarrow> (string + int list \<times> float64) \<times> World" where
  "submitSolution env cookie legacyPuzzleID strategy w =
     (let attemptDuration = attemptDurationOf (TimeMode strategy) (randFloat64 env (nRand w));
          w1 = (if drawsRandom (TimeMode strategy) then w\<lparr>nRand := Suc (nRand w)\<rparr> else w);
          w2 = w1\<lparr>nSubmit := Suc (nSubmit w1),
                  events := events w1 @ [EvSubmitSolution cookie legacyPuzzleID attemptDuration]\<rparr>
      in (case submitResp env (nSubmit w) of
            Inl err \<Rightarrow> (Inl err, w2)
          | Inr userRatings \<Rightarrow> (Inr (userRatings, attemptDuration), w2)))"

section \<open>Webhooks (discord.go)\<close>

text \<open>
  \<^verbatim>\<open>SendWebhook\<close> posts only to a Discord webhook URL; its callers ignore the error it
  returns.
\<close>

definition SendWebhook :: "string \<Rightarrow> string \<times> int \<Rightarrow> World \<Rightarrow> World" where
  "SendWebhook url payload w =
     (if \<not> strings_HasPrefix url ''https://discord.com/api/webhooks/'' then w
      else w\<lparr>events := events w @ [EvWebhook (fst payload) (snd payload)]\<rparr>)"

section \<open>The per-account run loop (main.go)\<close>

text \<open>Title and colour of the embed of \<^verbatim>\<open>buildCompletionEmbed\<close>.\<close>

definition buildCompletionEmbed :: "Account \<Rightarrow> string option \<Rightarrow> string \<times> int" where
  "buildCompletionEmbed account err =
     (''Report for '' @ Username account,
      (case err of
         Some msg \<Rightarrow> if strings_Contains msg ''cooldown'' then 16776960 else 15158332
       | None \<Rightarrow> 3066993))"

definition solvePuzzleForAccount ::
  "Env \<Rightarrow> Account \<Rightarrow> Strategy \<Rightarrow> World \<Rightarrow> (string + SolvedPuzzle) \<times> World" where
  "solvePuzzleForAccount env account strategy w =
     (let (statsBefore, w1) = getTacticsStats env (Cookie account) w;
          (puzzleResp, w2) = getNextPuzzle env (Cookie account) w1
      in case puzzleResp of
           Inl err \<Rightarrow> (Inl err, w2)
         | Inr legacyPuzzleID \<Rightarrow>
             (let (solutionResp, w3) = submitSolution env (Cookie account) legacyPuzzleID strategy w2
              in case solutionResp of
                   Inl err \<Rightarrow> (Inl err, w3)
                 | Inr (userRatings, attemptDuration) \<Rightarrow>
                     (Inr \<lparr>PuzzleID = legacyPuzzleID,
                           Timestamp = Now env w3,
                           RatingBefore = (case statsBefore of Inl _ \<Rightarrow> 0 | Inr rating \<Rightarrow> rating),
                           RatingAfter = (case userRatings of [] \<Rightarrow> 0 | rating # _ \<Rightarrow> rating),
                           TimeTaken = attemptDuration,
                           Success = True\<rparr>,
                      w3)))"

text \<open>
  The \<^verbatim>\<open>for !shouldStop\<close> loop of \<^verbatim>\<open>processAccount\<close>, with fuel: one unit for each iteration.
  It returns the world it has reached and, when the loop has ended within the fuel, the
  solved count and the final error. The status lines written to the logger and the
  countdown goroutine (which only writes status lines) are left out; \<^verbatim>\<open>lastRating\<close> is
  read only in the iteration that assigns it.
\<close>

fun processLoop ::
  "nat \<Rightarrow> Env \<Rightarrow> Account \<Rightarrow> Strategy \<Rightarrow> int \<Rightarrow> World \<Rightarrow> World \<times> (int \<times> string option) option" where
  "processLoop 0 env account strategy solvedCount w = (w, None)"
| "processLoop (Suc fuel) env account strategy solvedCount w =
     (case solvePuzzleForAccount env account strategy w of
        (Inl err, w1) \<Rightarrow> (w1, Some (solvedCount, Some err))
      | (Inr solvedPuzzle, w1) \<Rightarrow>
          (let solvedCount1 = wrap64 (solvedCount + 1);
               lastRating = RatingAfter solvedPuzzle;
               shouldStop =
                 (if StopMode strategy = StopModePuzzles
                  then 0 < PuzzlesPerDay strategy \<and> PuzzlesPerDay strategy \<le> solvedCount1
                  else if StopMode strategy = StopModeRating
                  then 0 < TargetRating strategy \<and> TargetRating strategy \<le> lastRating
                  else False)
           in if \<not> shouldStop \<and> SubmitMode strategy \<noteq> SubmitModeASAP
              then (let delay = wrap64 (truncToInt64 (TimeTaken solvedPuzzle) * Second)
                    in processLoop fuel env account strategy solvedCount1 (Sleep delay w1))
              else if shouldStop then (w1, Some (solvedCount1, None))
              else processLoop fuel env account strategy solvedCount1 w1))"

text \<open>The condition of the cooldown gate of \<^verbatim>\<open>processAccount\<close>, at the world where it is read.\<close>

definition onCooldown :: "Env \<Rightarrow> Account \<Rightarrow> World \<Rightarrow> bool" where
  "onCooldown env account w =
     (\<not> IsZero (LastRun account) \<and> Since env w (LastRun account) < 24 * Hour
        \<and> \<not> IsPremium account)"

text \<open>
  \<^verbatim>\<open>processAccount\<close>. The account behind the pointer is returned with the result that the
  source sends on the channel; when the fuel does not reach the end of the loop, the world
  reached is returned alone. As in the loop, the status lines are left out.
\<close>

definition processAccount ::
  "nat \<Rightarrow> Env \<Rightarrow> string \<Rightarrow> (string \<rightharpoonup> Strategy) \<Rightarrow> Account \<Rightarrow> World
     \<Rightarrow> World \<times> (Account \<times> ProcessResult) option" where
  "processAccount fuel env webhookURL strategies account w =
     (case strategies (StrategyName account) of
        None \<Rightarrow>
          (w, Some (account,
                    \<lparr>AccountUsername = Username account, PuzzlesSolved = 0, StrategyPtr = None,
                     Error = Some (''strategy not found: '' @ StrategyName account)\<rparr>))
      | Some strategy \<Rightarrow>
          (let (initialStats, w1) = getTacticsStats env (Cookie account) w;
               (w2, outcome) =
                 (if onCooldown env account w1
                  then (w1, Some (account, 0,
                          Some (''on cooldown until ''
                                  @ formatRFC822 env (Add (LastRun account) (24 * Hour)))))
                  else (case processLoop fuel env account strategy 0 w1 of
                          (w', None) \<Rightarrow> (w', None)
                        | (w', Some (solvedCount, finalError)) \<Rightarrow>
                            (w', Some (if 0 < PuzzlesPerDay strategy \<and> finalError = None
                                       then account\<lparr>LastRun := Now env w'\<rparr> else account,
                                       solvedCount, finalError))))
           in case outcome of
                None \<Rightarrow> (w2, None)
              | Some (account1, solvedCount, finalError) \<Rightarrow>
                  (let (finalStats, w3) = getTacticsStats env (Cookie account1) w2;
                       w4 = SendWebhook webhookURL (buildCompletionEmbed account1 finalError) w3
                   in (w4, Some (account1,
                                 \<lparr>AccountUsername = Username account1,
                                  PuzzlesSolved = solvedCount,
                                  StrategyPtr = Some strategy,
                                  Error = finalError\<rparr>)))))"

text \<open>
  Vocabulary for runs: the session whose fetch is the \<open>i\<close>-th \<^verbatim>\<open>getNextPuzzle\<close> request and
  whose submission is the \<open>j\<close>-th \<^verbatim>\<open>submitSolution\<close> request succeeds; the rating that
  submission returns (\<^verbatim>\<open>RatingAfter\<close>, 0 when \<^verbatim>\<open>UserRatings\<close> is empty); and the number of
  blocking operations of \<^verbatim>\<open>processAccount\<close> after its loop (the final stats request, and the
  webhook when the URL is one of Discord's).
\<close>

definition sessionSucceeds :: "Env \<Rightarrow> nat \<Rightarrow> nat \<Rightarrow> bool" where
  "sessionSucceeds env i j =
     (case puzzleResp env i of
        Inl err \<Rightarrow> False
      | Inr (body, legacyPuzzleID) \<Rightarrow>
          legacyPuzzleID \<noteq> [] \<and> (case submitResp env j of Inl err \<Rightarrow> False | Inr rs \<Rightarrow> True))"

definition sessionRating :: "Env \<Rightarrow> nat \<Rightarrow> int" where
  "sessionRating env j =
     (case submitResp env j of Inl err \<Rightarrow> 0 | Inr [] \<Rightarrow> 0 | Inr (rating # _) \<Rightarrow> rating)"

definition opsAfterLoop :: "string \<Rightarrow> nat" where
  "opsAfterLoop webhookURL =
     (if strings_HasPrefix webhookURL ''https://discord.com/api/webhooks/'' then 2 else 1)"

section \<open>The orchestrator (main.go)\<close>

text \<open>
  The entry of \<^verbatim>\<open>successfulAccounts\<close> for a result, as the two \<^verbatim>\<open>fmt.Sprintf\<close> calls of the
  aggregation loop build it.
\<close>

definition successEntry :: "ProcessResult \<Rightarrow> string" where
  "successEntry result =
     (case StrategyPtr result of
        Some strategy \<Rightarrow>
          AccountUsername result @ '' ('' @ showInt (PuzzlesSolved result) @ ''/''
            @ showInt (PuzzlesPerDay strategy) @ '' puzzles)''
      | None \<Rightarrow> AccountUsername result @ '' ('' @ showInt (PuzzlesSolved result) @ '' puzzles)'')"

text \<open>
  The aggregation loop of \<^verbatim>\<open>runSolver\<close> over the collected results: the three slices
  \<^verbatim>\<open>successfulAccounts\<close>, \<^verbatim>\<open>cooldownAccounts\<close> and \<^verbatim>\<open>errorAccounts\<close>.
\<close>

definition aggregateStep ::
  "string list \<times> string list \<times> string list \<Rightarrow> ProcessResult
     \<Rightarrow> string list \<times> string list \<times> string list" where
  "aggregateStep acc result =
     (case acc of (successfulAccounts, cooldownAccounts, errorAccounts) \<Rightarrow>
        (case Error result of
           Some msg \<Rightarrow>
             if strings_Contains msg ''cooldown''
             then (successfulAccounts, cooldownAccounts @ [AccountUsername result], errorAccounts)
             else (successfulAccounts, cooldownAccounts, errorAccounts @ [AccountUsername result])
         | None \<Rightarrow> (successfulAccounts @ [successEntry result], cooldownAccounts, errorAccounts)))"

definition aggregateResults ::
  "ProcessResult list \<Rightarrow> string list \<times> string list \<times> string list" where
  "aggregateResults results = foldl aggregateStep ([], [], []) results"

text \<open>The three classes of a result.\<close>

definition isSuccess :: "ProcessResult \<Rightarrow> bool" where
  "isSuccess result = (Error result = None)"

definition isCooldown :: "ProcessResult \<Rightarrow> bool" where
  "isCooldown result =
     (case Error result of None \<Rightarrow> False | Some msg \<Rightarrow> strings_Contains msg ''cooldown'')"

definition isHardError :: "ProcessResult \<Rightarrow> bool" where
  "isHardError result =
     (case Error result of None \<Rightarrow> False | Some msg \<Rightarrow> \<not> strings_Contains msg ''cooldown'')"

text \<open>
  The workers of \<^verbatim>\<open>runSolver\<close>. The range loop hands each goroutine the address of its loop
  variable, a copy of the map entry (a fresh variable in each iteration, as from Go 1.22);
  the goroutines share the remote service, the logger and the result channel only. They
  are run here one after the other, in the order of the range loop, as they do run when
  the limit of concurrent accounts (which the model leaves out) is 1; each returns its
  copy of the account as it is when the goroutine ends, and its result.
\<close>

fun runWorkers ::
  "nat \<Rightarrow> Env \<Rightarrow> string \<Rightarrow> (string \<rightharpoonup> Strategy) \<Rightarrow> (string \<times> Account) list \<Rightarrow> World
     \<Rightarrow> World \<times> ((string \<times> Account) list \<times> ProcessResult list) option" where
  "runWorkers fuel env webhookURL strategies [] w = (w, Some ([], []))"
| "runWorkers fuel env webhookURL strategies ((username, account) # rest) w =
     (case processAccount fuel env webhookURL strategies account w of
        (w1, None) \<Rightarrow> (w1, None)
      | (w1, Some (account1, result)) \<Rightarrow>
          (case runWorkers fuel env webhookURL strategies rest w1 of
             (w2, None) \<Rightarrow> (w2, None)
           | (w2, Some (copies, results)) \<Rightarrow>
               (w2, Some ((username, account1) # copies, result # results))))"

text \<open>
  \<^verbatim>\<open>runSolver\<close>, for the loaded configuration, database and strategies. The database is
  the list of the entries of \<^verbatim>\<open>db.Accounts\<close> in the order of the range loop.
  \<open>savedAccounts\<close> is the map that \<^verbatim>\<open>saveDatabase\<close> writes: the source assigns nothing to
  \<^verbatim>\<open>db.Accounts\<close> between loading and saving.
\<close>

record SolverRun =
  savedAccounts :: "(string \<times> Account) list"
  workerCopies :: "(string \<times> Account) list"
  collected :: "ProcessResult list"
  buckets :: "string list \<times> string list \<times> string list"

definition runSolver ::
  "nat \<Rightarrow> Env \<Rightarrow> string \<Rightarrow> (string \<times> Account) list \<Rightarrow> (string \<rightharpoonup> Strategy) \<Rightarrow> World
     \<Rightarrow> World \<times> SolverRun option" where
  "runSolver fuel env webhookURL dbAccounts strategies w =
     (let w1 = SendWebhook webhookURL (''chesshook2 run starting...'', 3447003) w
      in case runWorkers fuel env webhookURL strategies dbAccounts w1 of
           (w2, None) \<Rightarrow> (w2, None)
         | (w2, Some (copies, results)) \<Rightarrow>
             (SendWebhook webhookURL (''chesshook2 execution summary'', 3447003) w2,
              Some \<lparr>savedAccounts = dbAccounts,
                    workerCopies = copies,
                    collected = results,
                    buckets = aggregateResults results\<rparr>))"

section \<open>Example inputs\<close>

text \<open>
  A service that answers every request (each solved puzzle adds 8 rating points) with
  a clock that advances one second for each blocking operation, the default strategy of
  \<^verbatim>\<open>loadStrategies\<close>, and a free account that has never run.
\<close>

definition envSteady :: Env where
  "envSteady = \<lparr>statsResp = (\<lambda>n. Inr 1500), puzzleResp = (\<lambda>n. Inr (''{}'', ''p1'')),
     submitResp = (\<lambda>n. Inr [1500 + 8 * int n]), randFloat64 = (\<lambda>n. 1 / 4),
     wallClock = (\<lambda>n. 63900000000000000000 + int n * Second), formatRFC822 = showInt\<rparr>"

definition worldStart :: World where
  "worldStart = \<lparr>nStats = 0, nPuzzle = 0, nSubmit = 0, nRand = 0, events = []\<rparr>"

definition strategyDefault :: Strategy where
  "strategyDefault = \<lparr>Name = ''default'', StopMode = StopModePuzzles, PuzzlesPerDay = 3,
     TargetRating = 4000, TimeMode = TimeModeLegit, SubmitMode = SubmitModeLegit\<rparr>"

definition accountFresh :: Account where
  "accountFresh = \<lparr>Username = ''alice'', Cookie = ''c'', IsPremium = False,
     StrategyName = ''default'', PremiumExpiry = 0, LastRun = 0, LastRating = 1500\<rparr>"

text \<open>
  A strategy that stops at rating 1520, an open-ended one (rating target 0), a service
  whose third puzzle fetch fails, and accounts for them; an account that ran 3599 seconds
  before the clock's start (one hour before the gate reads the clock), free and premium.
\<close>

definition strategyClimb :: Strategy where
  "strategyClimb = \<lparr>Name = ''climb'', StopMode = StopModeRating, PuzzlesPerDay = 0,
     TargetRating = 1520, TimeMode = TimeModeZero, SubmitMode = SubmitModeASAP\<rparr>"

definition strategyOpen :: Strategy where
  "strategyOpen = \<lparr>Name = ''open'', StopMode = StopModeRating, PuzzlesPerDay = 0,
     TargetRating = 0, TimeMode = TimeModeZero, SubmitMode = SubmitModeASAP\<rparr>"

definition envFlaky :: Env where
  "envFlaky = envSteady\<lparr>puzzleResp :=
     (\<lambda>n. if n < 2 then Inr (''{}'', ''p1'') else Inl ''connection refused'')\<rparr>"

definition strategies3 :: "string \<rightharpoonup> Strategy" where
  "strategies3 = [''default'' \<mapsto> strategyDefault, ''climb'' \<mapsto> strategyClimb,
     ''open'' \<mapsto> strategyOpen]"

definition accountClimb :: Account where
  "accountClimb = accountFresh\<lparr>StrategyName := ''climb''\<rparr>"

definition accountOpen :: Account where
  "accountOpen = accountFresh\<lparr>StrategyName := ''open''\<rparr>"

definition accountRecent :: Account where
  "accountRecent = accountFresh\<lparr>LastRun := 63899996401000000000\<rparr>"

definition accountPremium :: Account where
  "accountPremium = accountRecent\<lparr>IsPremium := True\<rparr>"

text \<open>
  A strategy that reports hour-long attempts, and a service like the steady one whose
  random source returns the largest float64 below 1.
\<close>

definition strategyHour :: Strategy where
  "strategyHour = \<lparr>Name = ''hours'', StopMode = StopModePuzzles, PuzzlesPerDay = 3,
     TargetRating = 0, TimeMode = TimeModeHour, SubmitMode = SubmitModeASAP\<rparr>"

definition envEdge :: Env where
  "envEdge = envSteady\<lparr>randFloat64 := (\<lambda>n. maxBelowOne)\<rparr>"

section \<open>Properties of the status surface\<close>

lemma loggerInv_New: "loggerInv NewLogger"
  by (simp add: loggerInv_def NewLogger_def)

lemma orderedKeys_AddLine:
  "orderedKeys (snd (AddLine l key v)) =
     (if persistentLines l key = None then orderedKeys l @ [key] else orderedKeys l)"
  by (simp add: AddLine_def updateDisplay_def)

lemma persistentLines_AddLine:
  "persistentLines (snd (AddLine l key v)) = (persistentLines l)(key \<mapsto> v)"
  by (simp add: AddLine_def updateDisplay_def)

lemma orderedKeys_RemoveLine:
  "orderedKeys (snd (RemoveLine l key)) = remove1 key (orderedKeys l)"
  by (simp add: RemoveLine_def updateDisplay_def)

lemma persistentLines_RemoveLine:
  "persistentLines (snd (RemoveLine l key)) = (persistentLines l)(key := None)"
  by (simp add: RemoveLine_def updateDisplay_def)

lemma Printf_keeps:
  "orderedKeys (snd (Printf l msg)) = orderedKeys l"
  "persistentLines (snd (Printf l msg)) = persistentLines l"
  "orderedKeys (snd (Println l msg)) = orderedKeys l"
  "persistentLines (snd (Println l msg)) = persistentLines l"
  "orderedKeys (snd (Flush l)) = orderedKeys l"
  "persistentLines (snd (Flush l)) = persistentLines l"
  by (simp_all add: Printf_def Println_def Flush_def updateDisplay_def)

lemma loggerInv_applyOp: "loggerInv l \<Longrightarrow> loggerInv (applyOp l lop)"
proof (cases lop)
  case (OpAddLine key v)
  assume "loggerInv l"
  then show ?thesis
    unfolding loggerInv_def OpAddLine applyOp.simps orderedKeys_AddLine persistentLines_AddLine
    by (auto simp: domIff)
next
  case (OpRemoveLine key)
  assume "loggerInv l"
  then show ?thesis
    unfolding loggerInv_def OpRemoveLine applyOp.simps orderedKeys_RemoveLine
      persistentLines_RemoveLine
    by (auto simp: domIff)
next
  case (OpPrintf msg)
  assume "loggerInv l"
  then show ?thesis
    by (simp add: loggerInv_def OpPrintf Printf_keeps)
next
  case (OpPrintln msg)
  assume "loggerInv l"
  then show ?thesis
    by (simp add: loggerInv_def OpPrintln Printf_keeps)
next
  case OpClearAll
  then show ?thesis by (simp add: loggerInv_def ClearAll_def)
next
  case OpFlush
  assume "loggerInv l"
  then show ?thesis
    by (simp add: loggerInv_def OpFlush Printf_keeps)
qed

lemma loggerInv_applyOps: "loggerInv l \<Longrightarrow> loggerInv (applyOps l ops)"
  unfolding applyOps_def
  by (induction ops arbitrary: l) (simp_all add: loggerInv_applyOp)

lemma printedLines_ansiCleanUp: "printedLines (ansiCleanUp n @ ws) = printedLines ws"
proof -
  have "printedLines (concat (replicate k [AnsiMoveUp, AnsiClearLine]) @ ws) = printedLines ws" for k
    by (induction k) simp_all
  then show ?thesis by (simp add: ansiCleanUp_def)
qed

lemma printedLines_map_Println: "printedLines (map (\<lambda>k. FmtPrintln (f k)) ks) = map f ks"
  by (induction ks) simp_all

lemma printedLines_updateDisplay:
  "printedLines (fst (updateDisplay l)) = map (GetLine l) (orderedKeys l)"
  using printedLines_ansiCleanUp [of "lastUpdateLines l"
      "map (\<lambda>key. FmtPrintln (GetLine l key)) (orderedKeys l)"]
  by (simp add: updateDisplay_def printedLines_map_Println)

lemma firstSeen_addLines:
  "orderedKeys (applyOps l (map (\<lambda>(k, v). OpAddLine k v) kvs)) = firstSeen (orderedKeys l) (map fst kvs)"
  if "loggerInv l"
  using that
proof (induction kvs arbitrary: l)
  case Nil
  then show ?case by (simp add: applyOps_def)
next
  case (Cons kv kvs)
  obtain k v where kv: "kv = (k, v)" by (cases kv)
  have inv': "loggerInv (snd (AddLine l k v))"
    using loggerInv_applyOp [OF Cons.prems, of "OpAddLine k v"] by simp
  have mem: "(persistentLines l k = None) = (k \<notin> set (orderedKeys l))"
    using Cons.prems by (auto simp: loggerInv_def domIff)
  show ?case
    using Cons.IH [OF inv'] mem
    by (simp add: kv applyOps_def orderedKeys_AddLine)
qed

text \<open>
  Claim C9. For every state \<open>l\<close> the logger can reach from \<^verbatim>\<open>NewLogger()\<close>: \<^verbatim>\<open>AddLine\<close> leaves
  the key order as it is when the key is present and appends the key when it is new, and
  the lines it draws are the stored values in that order with the new value at the key;
  \<^verbatim>\<open>RemoveLine\<close> takes the key out of the order, keeps the order of the other keys and draws
  their lines only. From a new logger, a sequence of \<^verbatim>\<open>AddLine\<close> calls lists the keys in the
  order of their first insertion. Adding "a", then "b", then removing "a" draws the line of
  "b" alone.
\<close>

theorem logger_render_order:
  "let l = applyOps NewLogger ops;
       la = snd (AddLine l key v);
       lr = snd (RemoveLine l key)
   in orderedKeys la = (if key \<in> set (orderedKeys l) then orderedKeys l else orderedKeys l @ [key])
    \<and> printedLines (fst (AddLine l key v))
        = map (\<lambda>k. if k = key then v else GetLine l k) (orderedKeys la)
    \<and> orderedKeys lr = filter (\<lambda>k. k \<noteq> key) (orderedKeys l)
    \<and> printedLines (fst (RemoveLine l key))
        = map (GetLine l) (filter (\<lambda>k. k \<noteq> key) (orderedKeys l))
    \<and> orderedKeys (applyOps NewLogger (map (\<lambda>(k, v). OpAddLine k v) kvs))
        = firstSeen [] (map fst kvs)
    \<and> printedLines (fst (RemoveLine (applyOps NewLogger [OpAddLine ''a'' va, OpAddLine ''b'' vb]) ''a''))
        = [vb]"
proof -
  define l where "l = applyOps NewLogger ops"
  have inv: "loggerInv l"
    unfolding l_def by (rule loggerInv_applyOps [OF loggerInv_New])
  have mem: "(persistentLines l key = None) = (key \<notin> set (orderedKeys l))"
    using inv by (auto simp: loggerInv_def domIff)
  have dist: "distinct (orderedKeys l)"
    using inv by (simp add: loggerInv_def)
  have a1: "orderedKeys (snd (AddLine l key v))
      = (if key \<in> set (orderedKeys l) then orderedKeys l else orderedKeys l @ [key])"
    by (simp add: orderedKeys_AddLine mem)
  have a2: "printedLines (fst (AddLine l key v))
      = map (\<lambda>k. if k = key then v else GetLine l k) (orderedKeys (snd (AddLine l key v)))"
  proof -
    define l' where "l' = l\<lparr>orderedKeys := (if persistentLines l key = None then orderedKeys l @ [key]
                          else orderedKeys l),
          persistentLines := (persistentLines l)(key \<mapsto> v)\<rparr>"
    have g: "GetLine l' = (\<lambda>k. if k = key then v else GetLine l k)"
      by (auto simp: l'_def GetLine_def)
    have "AddLine l key v = updateDisplay l'"
      by (simp add: AddLine_def l'_def)
    moreover have "orderedKeys (snd (updateDisplay l')) = orderedKeys l'"
      by (simp add: updateDisplay_def)
    ultimately show ?thesis
      by (simp add: printedLines_updateDisplay g)
  qed
  have r1: "orderedKeys (snd (RemoveLine l key)) = filter (\<lambda>k. k \<noteq> key) (orderedKeys l)"
    using dist by (simp add: orderedKeys_RemoveLine distinct_remove1_removeAll removeAll_filter_not_eq)
       (metis (mono_tags, lifting) filter_cong)
  have r2: "printedLines (fst (RemoveLine l key))
      = map (GetLine l) (filter (\<lambda>k. k \<noteq> key) (orderedKeys l))"
  proof -
    define l' where "l' = l\<lparr>persistentLines := (persistentLines l)(key := None),
          orderedKeys := remove1 key (orderedKeys l)\<rparr>"
    have g: "map (GetLine l') (filter (\<lambda>k. k \<noteq> key) ks) = map (GetLine l) (filter (\<lambda>k. k \<noteq> key) ks)" for ks
      by (induction ks) (simp_all add: l'_def GetLine_def)
    have "RemoveLine l key = updateDisplay l'"
      by (simp add: RemoveLine_def l'_def)
    moreover have "orderedKeys l' = filter (\<lambda>k. k \<noteq> key) (orderedKeys l)"
      using r1 by (simp add: orderedKeys_RemoveLine l'_def)
    ultimately show ?thesis
      by (simp add: printedLines_updateDisplay g)
  qed
  have s: "orderedKeys (applyOps NewLogger (map (\<lambda>(k, v). OpAddLine k v) kvs))
      = firstSeen [] (map fst kvs)"
    using firstSeen_addLines [OF loggerInv_New, of kvs] by (simp add: NewLogger_def)
  have e: "printedLines (fst (RemoveLine (applyOps NewLogger [OpAddLine ''a'' va, OpAddLine ''b'' vb]) ''a''))
      = [vb]"
    by (simp add: applyOps_def AddLine_def RemoveLine_def updateDisplay_def NewLogger_def
        GetLine_def printedLines_ansiCleanUp)
  show ?thesis
    unfolding Let_def l_def [symmetric] using a1 a2 r1 r2 s e by blast
qed

section \<open>Properties of the run loop\<close>

lemma wrap64_id: "- (2 ^ 63) \<le> x \<Longrightarrow> x < 2 ^ 63 \<Longrightarrow> wrap64 x = x"
  by (simp add: wrap64_def)

lemma Sleep_counters [simp]:
  "nStats (Sleep d w) = nStats w" "nPuzzle (Sleep d w) = nPuzzle w"
  "nSubmit (Sleep d w) = nSubmit w" "nRand (Sleep d w) = nRand w"
  "events (Sleep d w) = events w @ [EvSleep d]"
  by (simp_all add: Sleep_def)

lemma solve_ok:
  assumes "puzzleResp env (nPuzzle w) = Inr (body, pid)" and "pid \<noteq> []"
    and "submitResp env (nSubmit w) = Inr rs"
  shows "\<exists>sp w'. solvePuzzleForAccount env a s w = (Inr sp, w')
           \<and> RatingAfter sp = (case rs of [] \<Rightarrow> 0 | r # _ \<Rightarrow> r)
           \<and> TimeTaken sp = attemptDurationOf (TimeMode s) (randFloat64 env (nRand w))
           \<and> nPuzzle w' = Suc (nPuzzle w) \<and> nSubmit w' = Suc (nSubmit w)
           \<and> nStats w' = Suc (nStats w)
           \<and> events w' = events w @ [EvGetTacticsStats (Cookie a), EvGetNextPuzzle (Cookie a),
                 EvSubmitSolution (Cookie a) pid (attemptDurationOf (TimeMode s) (randFloat64 env (nRand w)))]"
  using assms
  by (simp add: solvePuzzleForAccount_def getTacticsStats_def getNextPuzzle_def
      submitSolution_def Let_def)

lemma solve_nPuzzle:
  "nPuzzle (snd (solvePuzzleForAccount env a s w)) = Suc (nPuzzle w)"
  by (simp add: solvePuzzleForAccount_def getTacticsStats_def getNextPuzzle_def
      submitSolution_def Let_def split: sum.splits prod.splits)

lemma sessionSucceedsD:
  assumes "sessionSucceeds env i j"
  shows "\<exists>body pid rs. puzzleResp env i = Inr (body, pid) \<and> pid \<noteq> [] \<and> submitResp env j = Inr rs"
  using assms by (auto simp: sessionSucceeds_def split: sum.splits prod.splits)

lemma sessionRating_Inr:
  "submitResp env j = Inr rs \<Longrightarrow> sessionRating env j = (case rs of [] \<Rightarrow> 0 | r # _ \<Rightarrow> r)"
  by (simp add: sessionRating_def split: list.splits)

lemma solve_succeeds:
  assumes "sessionSucceeds env (nPuzzle w) (nSubmit w)"
  shows "\<exists>sp w'. solvePuzzleForAccount env a s w = (Inr sp, w')
           \<and> RatingAfter sp = sessionRating env (nSubmit w)
           \<and> TimeTaken sp = attemptDurationOf (TimeMode s) (randFloat64 env (nRand w))
           \<and> nPuzzle w' = Suc (nPuzzle w) \<and> nSubmit w' = Suc (nSubmit w)"
proof -
  from sessionSucceedsD [OF assms] obtain body pid rs where
    h: "puzzleResp env (nPuzzle w) = Inr (body, pid)" "pid \<noteq> []" "submitResp env (nSubmit w) = Inr rs"
    by blast
  from solve_ok [OF h, of a s] sessionRating_Inr [OF h(3)] show ?thesis by auto
qed

lemma loop_puzzles:
  assumes mode: "StopMode s = StopModePuzzles"
    and C: "PuzzlesPerDay s < 2 ^ 63"
  shows "0 \<le> k \<Longrightarrow> k < PuzzlesPerDay s \<Longrightarrow> nat (PuzzlesPerDay s - k) \<le> fuel
    \<Longrightarrow> (\<forall>i < nat (PuzzlesPerDay s - k). sessionSucceeds env (nPuzzle w + i) (nSubmit w + i))
    \<Longrightarrow> \<exists>w'. processLoop fuel env a s k w = (w', Some (PuzzlesPerDay s, None))
           \<and> nPuzzle w' = nPuzzle w + nat (PuzzlesPerDay s - k)
           \<and> nSubmit w' = nSubmit w + nat (PuzzlesPerDay s - k)"
proof (induction fuel arbitrary: k w)
  case 0
  then show ?case by simp
next
  case (Suc fuel)
  have s0: "sessionSucceeds env (nPuzzle w) (nSubmit w)"
    using Suc.prems(4) [rule_format, of 0] Suc.prems(2) by simp
  from solve_succeeds [OF s0, of a s] obtain sp w1 where
    sol: "solvePuzzleForAccount env a s w = (Inr sp, w1)"
    and cnt: "nPuzzle w1 = Suc (nPuzzle w)" "nSubmit w1 = Suc (nSubmit w)"
    by blast
  have wr: "wrap64 (k + 1) = k + 1"
    using Suc.prems(1,2) C by (intro wrap64_id) auto
  show ?case
  proof (cases "PuzzlesPerDay s \<le> k + 1")
    case True
    then have eq: "PuzzlesPerDay s = k + 1" using Suc.prems(2) by simp
    have pos: "0 < PuzzlesPerDay s" using Suc.prems(1,2) by simp
    show ?thesis
      using sol cnt wr eq pos mode by (simp add: Let_def)
  next
    case False
    then have lt: "k + 1 < PuzzlesPerDay s" by simp
    define w2 where "w2 = (if SubmitMode s \<noteq> SubmitModeASAP
        then Sleep (wrap64 (truncToInt64 (TimeTaken sp) * Second)) w1 else w1)"
    have cnt2: "nPuzzle w2 = Suc (nPuzzle w)" "nSubmit w2 = Suc (nSubmit w)"
      using cnt by (simp_all add: w2_def)
    have step: "processLoop (Suc fuel) env a s k w = processLoop fuel env a s (k + 1) w2"
      using sol wr False mode by (simp add: Let_def w2_def)
    have n: "nat (PuzzlesPerDay s - k) = Suc (nat (PuzzlesPerDay s - (k + 1)))"
      using lt Suc.prems(1) by simp
    have fuel: "nat (PuzzlesPerDay s - (k + 1)) \<le> fuel"
      using Suc.prems(3) n by simp
    have sess: "\<forall>i < nat (PuzzlesPerDay s - (k + 1)). sessionSucceeds env (nPuzzle w2 + i) (nSubmit w2 + i)"
    proof (intro allI impI)
      fix i assume "i < nat (PuzzlesPerDay s - (k + 1))"
      then have "Suc i < nat (PuzzlesPerDay s - k)" using n by simp
      from Suc.prems(4) [rule_format, OF this] show "sessionSucceeds env (nPuzzle w2 + i) (nSubmit w2 + i)"
        by (simp add: cnt2)
    qed
    from Suc.IH [OF _ lt fuel sess] Suc.prems(1)
    obtain w' where r: "processLoop fuel env a s (k + 1) w2 = (w', Some (PuzzlesPerDay s, None))"
      "nPuzzle w' = nPuzzle w2 + nat (PuzzlesPerDay s - (k + 1))"
      "nSubmit w' = nSubmit w2 + nat (PuzzlesPerDay s - (k + 1))"
      by auto
    show ?thesis
      using r step cnt2 n by simp
  qed
qed

lemma SendWebhook_counters [simp]:
  "nStats (SendWebhook url e w) = nStats w" "nPuzzle (SendWebhook url e w) = nPuzzle w"
  "nSubmit (SendWebhook url e w) = nSubmit w" "nRand (SendWebhook url e w) = nRand w"
  by (simp_all add: SendWebhook_def)

lemma getTacticsStats_counters [simp]:
  "nStats (snd (getTacticsStats env c w)) = Suc (nStats w)"
  "nPuzzle (snd (getTacticsStats env c w)) = nPuzzle w"
  "nSubmit (snd (getTacticsStats env c w)) = nSubmit w"
  "nRand (snd (getTacticsStats env c w)) = nRand w"
  "events (snd (getTacticsStats env c w)) = events w @ [EvGetTacticsStats c]"
  by (simp_all add: getTacticsStats_def)

lemma processAccount_missing:
  assumes "strategies (StrategyName a) = None"
  shows "processAccount fuel env url strategies a w =
     (w, Some (a, \<lparr>AccountUsername = Username a, PuzzlesSolved = 0, StrategyPtr = None,
                     Error = Some (''strategy not found: '' @ StrategyName a)\<rparr>))"
  using assms by (simp add: processAccount_def)

lemma processAccount_blocked:
  assumes "strategies (StrategyName a) = Some s"
    and "onCooldown env a (snd (getTacticsStats env (Cookie a) w))"
  shows "processAccount fuel env url strategies a w =
     (SendWebhook url
        (buildCompletionEmbed a
           (Some (''on cooldown until '' @ formatRFC822 env (Add (LastRun a) (24 * Hour)))))
        (snd (getTacticsStats env (Cookie a) (snd (getTacticsStats env (Cookie a) w)))),
      Some (a, \<lparr>AccountUsername = Username a, PuzzlesSolved = 0, StrategyPtr = Some s,
                 Error = Some (''on cooldown until ''
                           @ formatRFC822 env (Add (LastRun a) (24 * Hour)))\<rparr>))"
  using assms by (simp add: processAccount_def Let_def case_prod_beta)

lemma processAccount_out_of_fuel:
  assumes "strategies (StrategyName a) = Some s"
    and "\<not> onCooldown env a (snd (getTacticsStats env (Cookie a) w))"
    and "processLoop fuel env a s 0 (snd (getTacticsStats env (Cookie a) w)) = (w2, None)"
  shows "processAccount fuel env url strategies a w = (w2, None)"
  using assms by (simp add: processAccount_def Let_def case_prod_beta)

lemma processAccount_finished:
  assumes "strategies (StrategyName a) = Some s"
    and "\<not> onCooldown env a (snd (getTacticsStats env (Cookie a) w))"
    and "processLoop fuel env a s 0 (snd (getTacticsStats env (Cookie a) w)) = (w2, Some (n, fe))"
  shows "processAccount fuel env url strategies a w =
     (let a1 = (if 0 < PuzzlesPerDay s \<and> fe = None then a\<lparr>LastRun := Now env w2\<rparr> else a)
      in (SendWebhook url (buildCompletionEmbed a1 fe) (snd (getTacticsStats env (Cookie a1) w2)),
          Some (a1, \<lparr>AccountUsername = Username a1, PuzzlesSolved = n, StrategyPtr = Some s,
                      Error = fe\<rparr>)))"
  using assms by (simp add: processAccount_def Let_def case_prod_beta)

text \<open>
  Claim C2. For a strategy in stop-by-puzzle-count mode with target \<open>C > 0\<close> (a Go int),
  assigned to an account that the cooldown gate lets through: when each of the next \<open>C\<close>
  sessions succeeds, \<^verbatim>\<open>processAccount\<close> returns (for every fuel of at least \<open>C\<close> iterations)
  with no error and \<^verbatim>\<open>PuzzlesSolved = C\<close>, after exactly \<open>C\<close> puzzle fetches and \<open>C\<close>
  submissions.
\<close>

theorem puzzle_count_run:
  assumes "strategies (StrategyName account) = Some strategy"
    and "StopMode strategy = StopModePuzzles"
    and "0 < PuzzlesPerDay strategy" and "PuzzlesPerDay strategy < 2 ^ 63"
    and "\<not> onCooldown env account (snd (getTacticsStats env (Cookie account) w))"
    and "\<forall>i < nat (PuzzlesPerDay strategy). sessionSucceeds env (nPuzzle w + i) (nSubmit w + i)"
    and "nat (PuzzlesPerDay strategy) \<le> fuel"
  shows "\<exists>w' account' result.
     processAccount fuel env webhookURL strategies account w = (w', Some (account', result))
     \<and> PuzzlesSolved result = PuzzlesPerDay strategy \<and> Error result = None
     \<and> nPuzzle w' = nPuzzle w + nat (PuzzlesPerDay strategy)
     \<and> nSubmit w' = nSubmit w + nat (PuzzlesPerDay strategy)"
proof -
  define w1 where "w1 = snd (getTacticsStats env (Cookie account) w)"
  have sess: "\<forall>i < nat (PuzzlesPerDay strategy - 0). sessionSucceeds env (nPuzzle w1 + i) (nSubmit w1 + i)"
    using assms(6) by (simp add: w1_def)
  from loop_puzzles [OF assms(2) assms(4), of 0 fuel env w1 account] assms(3) assms(7) sess
  obtain w2 where l: "processLoop fuel env account strategy 0 w1 = (w2, Some (PuzzlesPerDay strategy, None))"
    and c: "nPuzzle w2 = nPuzzle w1 + nat (PuzzlesPerDay strategy)"
      "nSubmit w2 = nSubmit w1 + nat (PuzzlesPerDay strategy)"
    by auto
  show ?thesis
    using processAccount_finished [where strategies = strategies and a = account
        and url = webhookURL, OF assms(1) assms(5) l [unfolded w1_def]] c
    by (simp add: w1_def Let_def)
qed

theorem puzzle_count_run_witness:
  "[''default'' \<mapsto> strategyDefault] (StrategyName accountFresh) = Some strategyDefault
   \<and> StopMode strategyDefault = StopModePuzzles \<and> PuzzlesPerDay strategyDefault = 3
   \<and> (\<exists>w' account' result.
        processAccount 3 envSteady [] [''default'' \<mapsto> strategyDefault] accountFresh worldStart
          = (w', Some (account', result))
        \<and> PuzzlesSolved result = 3 \<and> Error result = None \<and> nPuzzle w' = 3 \<and> nSubmit w' = 3)"
  using puzzle_count_run [of "[''default'' \<mapsto> strategyDefault]" accountFresh strategyDefault
      envSteady worldStart 3 "[]"]
  by (simp add: strategyDefault_def accountFresh_def envSteady_def worldStart_def
      onCooldown_def IsZero_def sessionSucceeds_def)

section \<open>Further properties of the run loop\<close>

lemma wrap64_wrap64_add: "wrap64 (wrap64 x + y) = wrap64 (x + y)"
proof -
  have "(wrap64 x + y + 2 ^ 63) mod 2 ^ 64 = ((x + 2 ^ 63) mod 2 ^ 64 + y) mod (2 ^ 64 :: int)"
    by (simp add: wrap64_def algebra_simps)
  also have "\<dots> = (x + 2 ^ 63 + y) mod 2 ^ 64"
    by (simp add: mod_add_left_eq)
  finally show ?thesis
    by (simp add: wrap64_def algebra_simps)
qed

lemma solve_Inr:
  assumes "solvePuzzleForAccount env a s w = (Inr sp, w1)"
  shows "sessionSucceeds env (nPuzzle w) (nSubmit w)"
    and "RatingAfter sp = sessionRating env (nSubmit w)"
    and "TimeTaken sp = attemptDurationOf (TimeMode s) (randFloat64 env (nRand w))"
    and "nPuzzle w1 = Suc (nPuzzle w)" and "nSubmit w1 = Suc (nSubmit w)"
  using assms
  by (auto simp: solvePuzzleForAccount_def getTacticsStats_def getNextPuzzle_def
      submitSolution_def Let_def sessionSucceeds_def sessionRating_def
      split: sum.splits prod.splits if_splits list.splits)

lemma processLoop_Suc_rating_stop:
  assumes "solvePuzzleForAccount env a s w = (Inr sp, w1)"
    and "StopMode s = StopModeRating" and "0 < TargetRating s"
    and "TargetRating s \<le> RatingAfter sp"
  shows "processLoop (Suc fuel) env a s k w = (w1, Some (wrap64 (k + 1), None))"
  using assms by (simp add: Let_def StopModeRating_def StopModePuzzles_def)

lemma processLoop_Suc_rating_go:
  assumes "solvePuzzleForAccount env a s w = (Inr sp, w1)"
    and "StopMode s = StopModeRating"
    and "TargetRating s \<le> 0 \<or> RatingAfter sp < TargetRating s"
  shows "processLoop (Suc fuel) env a s k w =
     processLoop fuel env a s (wrap64 (k + 1))
       (if SubmitMode s \<noteq> SubmitModeASAP
        then Sleep (wrap64 (truncToInt64 (TimeTaken sp) * Second)) w1 else w1)"
  using assms by (auto simp: Let_def StopModeRating_def StopModePuzzles_def)

lemma loop_rating:
  assumes mode: "StopMode s = StopModeRating" and R: "0 < TargetRating s"
  shows "Suc k \<le> fuel
    \<Longrightarrow> (\<forall>i < k. sessionSucceeds env (nPuzzle w + i) (nSubmit w + i)
                 \<and> sessionRating env (nSubmit w + i) < TargetRating s)
    \<Longrightarrow> sessionSucceeds env (nPuzzle w + k) (nSubmit w + k)
    \<Longrightarrow> TargetRating s \<le> sessionRating env (nSubmit w + k)
    \<Longrightarrow> \<exists>w'. processLoop fuel env a s c w = (w', Some (wrap64 (c + int (Suc k)), None))
           \<and> nPuzzle w' = nPuzzle w + Suc k \<and> nSubmit w' = nSubmit w + Suc k"
proof (induction k arbitrary: fuel c w)
  case 0
  then obtain f where f: "fuel = Suc f" by (cases fuel) auto
  from solve_succeeds [of env w a s] 0(3) obtain sp w1 where
    sol: "solvePuzzleForAccount env a s w = (Inr sp, w1)"
    and ra: "RatingAfter sp = sessionRating env (nSubmit w)"
    and cnt: "nPuzzle w1 = Suc (nPuzzle w)" "nSubmit w1 = Suc (nSubmit w)"
    by auto
  have "TargetRating s \<le> RatingAfter sp" using 0(4) ra by simp
  from processLoop_Suc_rating_stop [OF sol mode R this, of f c] cnt show ?case
    by (simp add: f)
next
  case (Suc k)
  then obtain f where f: "fuel = Suc f" by (cases fuel) auto
  have s0: "sessionSucceeds env (nPuzzle w) (nSubmit w)"
    and r0: "sessionRating env (nSubmit w) < TargetRating s"
    using Suc.prems(2) [rule_format, of 0] by simp_all
  from solve_succeeds [OF s0, of a s] obtain sp w1 where
    sol: "solvePuzzleForAccount env a s w = (Inr sp, w1)"
    and ra: "RatingAfter sp = sessionRating env (nSubmit w)"
    and cnt: "nPuzzle w1 = Suc (nPuzzle w)" "nSubmit w1 = Suc (nSubmit w)"
    by auto
  define w2 where "w2 = (if SubmitMode s \<noteq> SubmitModeASAP
        then Sleep (wrap64 (truncToInt64 (TimeTaken sp) * Second)) w1 else w1)"
  have cnt2: "nPuzzle w2 = Suc (nPuzzle w)" "nSubmit w2 = Suc (nSubmit w)"
    using cnt by (simp_all add: w2_def)
  have step: "processLoop fuel env a s c w = processLoop f env a s (wrap64 (c + 1)) w2"
    using processLoop_Suc_rating_go [OF sol mode, of f c] r0 ra by (simp add: f w2_def)
  have p1: "Suc k \<le> f" using Suc.prems(1) f by simp
  have p2: "\<forall>i < k. sessionSucceeds env (nPuzzle w2 + i) (nSubmit w2 + i)
                 \<and> sessionRating env (nSubmit w2 + i) < TargetRating s"
    using Suc.prems(2) by (auto simp: cnt2)
  have p3: "sessionSucceeds env (nPuzzle w2 + k) (nSubmit w2 + k)"
    using Suc.prems(3) by (simp add: cnt2)
  have p4: "TargetRating s \<le> sessionRating env (nSubmit w2 + k)"
    using Suc.prems(4) by (simp add: cnt2)
  from Suc.IH [OF p1 p2 p3 p4, of "wrap64 (c + 1)"] obtain w' where
    r: "processLoop f env a s (wrap64 (c + 1)) w2 = (w', Some (wrap64 (wrap64 (c + 1) + int (Suc k)), None))"
      "nPuzzle w' = nPuzzle w2 + Suc k" "nSubmit w' = nSubmit w2 + Suc k"
    by blast
  have "wrap64 (wrap64 (c + 1) + int (Suc k)) = wrap64 (c + 1 + int (Suc k))"
    by (rule wrap64_wrap64_add)
  also have "c + 1 + int (Suc k) = c + int (Suc (Suc k))"
    by simp
  finally have "wrap64 (wrap64 (c + 1) + int (Suc k)) = wrap64 (c + int (Suc (Suc k)))" .
  with r step cnt2 show ?case by simp
qed

lemma loop_exit_clean:
  "processLoop fuel env a s k w = (w', Some (n, None))
   \<Longrightarrow> (StopMode s = StopModePuzzles \<and> 0 < PuzzlesPerDay s \<and> PuzzlesPerDay s \<le> n)
     \<or> (StopMode s = StopModeRating \<and> 0 < TargetRating s)"
proof (induction fuel arbitrary: k w)
  case 0
  then show ?case by simp
next
  case (Suc fuel)
  show ?case
  proof (cases "solvePuzzleForAccount env a s w")
    case (Pair res w1)
    show ?thesis
    proof (cases res)
      case (Inl err)
      with Pair Suc.prems show ?thesis by simp
    next
      case (Inr sp)
      with Pair Suc.prems Suc.IH show ?thesis
        by (auto simp: Let_def split: if_splits)
    qed
  qed
qed

lemma loop_rating_runs_on:
  assumes mode: "StopMode s = StopModeRating" and R: "TargetRating s \<le> 0"
  shows "(\<forall>i < fuel. sessionSucceeds env (nPuzzle w + i) (nSubmit w + i))
    \<Longrightarrow> snd (processLoop fuel env a s k w) = None"
proof (induction fuel arbitrary: k w)
  case 0
  then show ?case by simp
next
  case (Suc fuel)
  have s0: "sessionSucceeds env (nPuzzle w) (nSubmit w)"
    using Suc.prems [rule_format, of 0] by simp
  from solve_succeeds [OF s0, of a s] obtain sp w1 where
    sol: "solvePuzzleForAccount env a s w = (Inr sp, w1)"
    and cnt: "nPuzzle w1 = Suc (nPuzzle w)" "nSubmit w1 = Suc (nSubmit w)"
    by auto
  define w2 where "w2 = (if SubmitMode s \<noteq> SubmitModeASAP
        then Sleep (wrap64 (truncToInt64 (TimeTaken sp) * Second)) w1 else w1)"
  have cnt2: "nPuzzle w2 = Suc (nPuzzle w)" "nSubmit w2 = Suc (nSubmit w)"
    using cnt by (simp_all add: w2_def)
  have step: "processLoop (Suc fuel) env a s k w = processLoop fuel env a s (wrap64 (k + 1)) w2"
    using processLoop_Suc_rating_go [OF sol mode, of fuel k] R by (simp add: w2_def)
  have "\<forall>i < fuel. sessionSucceeds env (nPuzzle w2 + i) (nSubmit w2 + i)"
    using Suc.prems by (auto simp: cnt2)
  from Suc.IH [OF this] step show ?case by simp
qed

lemma loop_nPuzzle:
  "nPuzzle w + (if fuel = 0 then 0 else 1) \<le> nPuzzle (fst (processLoop fuel env a s k w))"
proof (induction fuel arbitrary: k w)
  case 0
  then show ?case by simp
next
  case (Suc fuel)
  obtain res w1 where sol: "solvePuzzleForAccount env a s w = (res, w1)"
    by (cases "solvePuzzleForAccount env a s w")
  have n1: "nPuzzle w1 = Suc (nPuzzle w)"
    using solve_nPuzzle [of env a s w] sol by simp
  show ?case
  proof (cases res)
    case (Inl err)
    with sol n1 show ?thesis by simp
  next
    case (Inr sp)
    have a: "nPuzzle w1 \<le> nPuzzle (fst (processLoop fuel env a s k' w1))" for k'
      using Suc.IH [of w1 k'] by (simp split: if_splits)
    have b: "nPuzzle w1 \<le> nPuzzle (fst (processLoop fuel env a s k' (Sleep d w1)))" for k' d
      using Suc.IH [of "Sleep d w1" k'] by (simp split: if_splits)
    show ?thesis
      using sol Inr n1 a b by (auto simp: Let_def)
  qed
qed

lemma processAccount_cases [consumes 2, case_names blocked finished]:
  assumes "strategies (StrategyName a) = Some s"
    and "processAccount fuel env url strategies a w = (w', Some (a', r))"
  obtains
    (blocked) "onCooldown env a (snd (getTacticsStats env (Cookie a) w))"
      "a' = a" "PuzzlesSolved r = 0"
      "Error r = Some (''on cooldown until '' @ formatRFC822 env (Add (LastRun a) (24 * Hour)))"
      "w' = SendWebhook url (buildCompletionEmbed a (Error r))
              (snd (getTacticsStats env (Cookie a) (snd (getTacticsStats env (Cookie a) w))))"
  | (finished) w2 where "\<not> onCooldown env a (snd (getTacticsStats env (Cookie a) w))"
      "processLoop fuel env a s 0 (snd (getTacticsStats env (Cookie a) w))
         = (w2, Some (PuzzlesSolved r, Error r))"
      "a' = (if 0 < PuzzlesPerDay s \<and> Error r = None then a\<lparr>LastRun := Now env w2\<rparr> else a)"
      "w' = SendWebhook url (buildCompletionEmbed a' (Error r))
              (snd (getTacticsStats env (Cookie a') w2))"
proof (cases "onCooldown env a (snd (getTacticsStats env (Cookie a) w))")
  case True
  from processAccount_blocked [where strategies = strategies and a = a and url = url
      and fuel = fuel, OF assms(1) True] assms(2)
  show ?thesis by (intro blocked [OF True]) auto
next
  case False
  obtain w2 res where l: "processLoop fuel env a s 0 (snd (getTacticsStats env (Cookie a) w)) = (w2, res)"
    by (cases "processLoop fuel env a s 0 (snd (getTacticsStats env (Cookie a) w))")
  show ?thesis
  proof (cases res)
    case None
    from processAccount_out_of_fuel [where strategies = strategies and a = a and url = url,
        OF assms(1) False l [unfolded None]] assms(2)
    show ?thesis by simp
  next
    case (Some p)
    obtain n fe where p: "p = (n, fe)" by (cases p)
    from processAccount_finished [where strategies = strategies and a = a and url = url,
        OF assms(1) False l [unfolded Some p]] assms(2)
    have "a' = (if 0 < PuzzlesPerDay s \<and> fe = None then a\<lparr>LastRun := Now env w2\<rparr> else a)"
      and "PuzzlesSolved r = n" and "Error r = fe"
      and "w' = SendWebhook url (buildCompletionEmbed a' fe) (snd (getTacticsStats env (Cookie a') w2))"
      by (auto simp: Let_def)
    with l Some p show ?thesis
      by (intro finished [OF False, of w2]) auto
  qed
qed

lemma contains_cooldown: "strings_Contains (''on cooldown until '' @ s) ''cooldown''"
  by simp

lemma events_SendWebhook:
  "events (SendWebhook url e w) =
     events w @ (if strings_HasPrefix url ''https://discord.com/api/webhooks/''
                 then [EvWebhook (fst e) (snd e)] else [])"
  by (simp add: SendWebhook_def)

lemma length_events_after_loop:
  "length (events (SendWebhook url e (snd (getTacticsStats env c w2))))
     = length (events w2) + opsAfterLoop url"
  by (simp add: events_SendWebhook opsAfterLoop_def)

lemma not_blocked_fetches:
  assumes "strategies (StrategyName a) = Some s"
    and "\<not> onCooldown env a (snd (getTacticsStats env (Cookie a) w))"
    and "0 < fuel"
  shows "nPuzzle w < nPuzzle (fst (processAccount fuel env url strategies a w))"
proof -
  define w0 where "w0 = snd (getTacticsStats env (Cookie a) w)"
  obtain w2 res where l: "processLoop fuel env a s 0 w0 = (w2, res)"
    by (cases "processLoop fuel env a s 0 w0")
  have "nPuzzle w0 + 1 \<le> nPuzzle w2"
    using loop_nPuzzle [of w0 fuel env a s 0] assms(3) l by simp
  then have n: "nPuzzle w < nPuzzle w2" by (simp add: w0_def)
  show ?thesis
  proof (cases res)
    case None
    from processAccount_out_of_fuel [where strategies = strategies and a = a and url = url,
        OF assms(1,2) l [unfolded w0_def None]] n
    show ?thesis by simp
  next
    case (Some p)
    obtain k fe where p: "p = (k, fe)" by (cases p)
    from processAccount_finished [where strategies = strategies and a = a and url = url,
        OF assms(1,2) l [unfolded w0_def Some p]] n
    show ?thesis by (simp add: Let_def)
  qed
qed

section \<open>Evaluation of the example inputs\<close>

lemmas fixture_defs = envSteady_def envFlaky_def worldStart_def strategyDefault_def
  strategyClimb_def strategyOpen_def strategies3_def accountFresh_def accountClimb_def
  accountOpen_def accountRecent_def accountPremium_def

lemmas run_defs = processAccount_def solvePuzzleForAccount_def getTacticsStats_def
  getNextPuzzle_def submitSolution_def SendWebhook_def buildCompletionEmbed_def
  onCooldown_def IsZero_def Since_def Now_def Sub_def Add_def Sleep_def
  StopModePuzzles_def StopModeRating_def SubmitModeASAP_def SubmitModeLegit_def
  TimeModeLegit_def TimeModeHour_def TimeModeZero_def drawsRandom_def

lemma floor_45_2: "\<lfloor>(45::rat) / 2\<rfloor> = 22"
  by code_simp

lemma duration_legit_quarter: "attemptDurationOf ''legit'' (1 / 4) = 45 / 2"
  by code_simp

lemma run_default_fresh:
  "processAccount 3 envSteady [] strategies3 accountFresh worldStart =
     (\<lparr>nStats = 5, nPuzzle = 3, nSubmit = 3, nRand = 3,
       events = [EvGetTacticsStats ''c'',
                 EvGetTacticsStats ''c'', EvGetNextPuzzle ''c'',
                 EvSubmitSolution ''c'' ''p1'' (45 / 2), EvSleep 22000000000,
                 EvGetTacticsStats ''c'', EvGetNextPuzzle ''c'',
                 EvSubmitSolution ''c'' ''p1'' (45 / 2), EvSleep 22000000000,
                 EvGetTacticsStats ''c'', EvGetNextPuzzle ''c'',
                 EvSubmitSolution ''c'' ''p1'' (45 / 2),
                 EvGetTacticsStats ''c'']\<rparr>,
      Some (accountFresh\<lparr>LastRun := 63900000012000000000\<rparr>,
            \<lparr>AccountUsername = ''alice'', PuzzlesSolved = 3,
             StrategyPtr = Some strategyDefault, Error = None\<rparr>))"
  by (simp add: fixture_defs run_defs eval_nat_numeral Let_def duration_legit_quarter
      truncToInt64_def wrap64_def Second_def floor_45_2)

lemma run_open_flaky: "\<exists>w1 a1 r1. processAccount 4 envFlaky [] strategies3 accountOpen worldStart = (w1, Some (a1, r1))"
  by (simp add: fixture_defs run_defs eval_nat_numeral Let_def)

section \<open>Reported attempt durations\<close>

lemma pow2_pos: "0 < (2::rat) powi e"
  by (simp add: zero_less_power_int)

lemma pow2_mono: "e \<le> e' \<Longrightarrow> (2::rat) powi e \<le> 2 powi e'"
  by (rule power_int_increasing) simp_all

lemma pow2_less_exp: "(2::rat) powi e < 2 powi e' \<Longrightarrow> e < e'"
proof (rule ccontr)
  assume a: "(2::rat) powi e < 2 powi e'" and "\<not> e < e'"
  then have "e' \<le> e" by simp
  from pow2_mono [OF this] a show False by simp
qed

lemma pow2_nat: "0 \<le> e \<Longrightarrow> (2::rat) powi e = 2 ^ nat e"
  by (simp add: power_int_def)

lemma pow2_neg: "0 \<le> e \<Longrightarrow> (2::rat) powi (- e) = 1 / 2 ^ nat e"
  by (simp add: power_int_def field_simps)

lemma ilog2_ge1:
  assumes "1 \<le> a"
  shows "2 powi (ilog2 a) \<le> a \<and> a < 2 powi (ilog2 a + 1)"
proof -
  define n where "n = \<lfloor>a\<rfloor>"
  have n1: "1 \<le> n" using assms by (simp add: n_def le_floor_iff)
  then have n0: "0 < n" by simp
  from bitlen_bounds [OF n0] have b1: "2 ^ nat (bitlen n - 1) \<le> n" and b2: "n < 2 ^ nat (bitlen n)"
    by simp_all
  have bl: "1 \<le> bitlen n" using n0 by (simp add: bitlen_alt_def)
  have e: "ilog2 a = bitlen n - 1" using assms by (simp add: ilog2_def n_def)
  have "(2::rat) powi (bitlen n - 1) = of_int (2 ^ nat (bitlen n - 1))"
    using bl by (simp add: pow2_nat)
  also have "\<dots> \<le> of_int n" using b1 by (simp only: of_int_le_iff)
  also have "\<dots> \<le> a" by (simp add: n_def)
  finally have lo: "2 powi (ilog2 a) \<le> a" by (simp add: e)
  have "n + 1 \<le> 2 ^ nat (bitlen n)" using b2 by simp
  then have "(of_int (n + 1) :: rat) \<le> of_int (2 ^ nat (bitlen n))" by (simp only: of_int_le_iff)
  moreover have "a < of_int (n + 1)" using floor_correct [of a] by (simp add: n_def)
  ultimately have "a < of_int (2 ^ nat (bitlen n))" by simp
  also have "\<dots> = 2 powi (bitlen n)" using bl by (simp add: pow2_nat)
  finally have hi: "a < 2 powi (ilog2 a + 1)" by (simp add: e)
  from lo hi show ?thesis by simp
qed

lemma ilog2_lt1:
  assumes "0 < a" and "a < 1"
  shows "2 powi (ilog2 a) \<le> a \<and> a < 2 powi (ilog2 a + 1)"
proof -
  define m where "m = \<lceil>1 / a\<rceil> - 1"
  have inv: "1 < 1 / a" using assms by simp
  then have "1 < \<lceil>1 / a\<rceil>" by (simp add: less_ceiling_iff)
  then have m0: "0 < m" by (simp add: m_def)
  from bitlen_bounds [OF m0] have b1: "2 ^ nat (bitlen m - 1) \<le> m" and b2: "m < 2 ^ nat (bitlen m)"
    by simp_all
  have bl: "1 \<le> bitlen m" using m0 by (simp add: bitlen_alt_def)
  have e: "ilog2 a = - bitlen m" using assms by (simp add: ilog2_def m_def)
  have "1 / a \<le> of_int (m + 1)" by (simp add: m_def)
  also have "(of_int (m + 1) :: rat) \<le> of_int (2 ^ nat (bitlen m))"
  proof -
    have "m + 1 \<le> 2 ^ nat (bitlen m)" using b2 by simp
    then show ?thesis by (simp only: of_int_le_iff)
  qed
  finally have u: "1 / a \<le> 2 ^ nat (bitlen m)" by simp
  have "1 / 2 ^ nat (bitlen m) \<le> a"
    using u assms(1) by (simp add: field_simps)
  then have lo: "2 powi (ilog2 a) \<le> a"
    using bl by (simp add: e pow2_neg)
  have "(of_int (2 ^ nat (bitlen m - 1)) :: rat) \<le> of_int m"
    using b1 by (simp only: of_int_le_iff)
  also have "of_int m < 1 / a" by (simp add: m_def) linarith
  finally have l: "2 ^ nat (bitlen m - 1) < 1 / a" by simp
  have "a < 1 / 2 ^ nat (bitlen m - 1)"
    using l assms(1) by (simp add: field_simps)
  moreover have "(2::rat) powi (- bitlen m + 1) = 1 / 2 ^ nat (bitlen m - 1)"
    using bl pow2_neg [of "bitlen m - 1"] by simp
  ultimately have hi: "a < 2 powi (ilog2 a + 1)" by (simp add: e)
  from lo hi show ?thesis by simp
qed

lemma ilog2_bounds:
  assumes "0 < a"
  shows "2 powi (ilog2 a) \<le> a" and "a < 2 powi (ilog2 a + 1)"
  using ilog2_ge1 [of a] ilog2_lt1 [of a] assms by (cases "1 \<le> a"; simp)+

lemma ilog2_mono:
  assumes "0 < a" and "a \<le> b"
  shows "ilog2 a \<le> ilog2 b"
proof -
  have "2 powi (ilog2 a) \<le> a" using ilog2_bounds(1) [OF assms(1)] .
  also have "a \<le> b" by fact
  also have "b < 2 powi (ilog2 b + 1)" using ilog2_bounds(2) [of b] assms by simp
  finally have "ilog2 a < ilog2 b + 1" by (rule pow2_less_exp)
  then show ?thesis by simp
qed

lemma ilog2_unique:
  assumes "2 powi e \<le> a" and "a < 2 powi (e + 1)"
  shows "ilog2 a = e"
proof -
  have a0: "0 < a" using pow2_pos [of e] assms(1) by linarith
  have "2 powi (ilog2 a) \<le> a" using ilog2_bounds(1) [OF a0] .
  also note assms(2)
  finally have 1: "ilog2 a < e + 1" by (rule pow2_less_exp)
  note assms(1)
  also have "a < 2 powi (ilog2 a + 1)" using ilog2_bounds(2) [OF a0] .
  finally have 2: "e < ilog2 a + 1" by (rule pow2_less_exp)
  from 1 2 show ?thesis by simp
qed

lemma roundHalfEven_of_int: "roundHalfEven (of_int n) = n"
  by (simp add: roundHalfEven_def)

lemma roundHalfEven_mono:
  assumes "x \<le> y"
  shows "roundHalfEven x \<le> roundHalfEven y"
proof (cases "\<lfloor>x\<rfloor> = \<lfloor>y\<rfloor>")
  case True
  then show ?thesis using assms by (auto simp: roundHalfEven_def Let_def)
next
  case False
  then have "\<lfloor>x\<rfloor> + 1 \<le> \<lfloor>y\<rfloor>" using floor_mono [OF assms] by linarith
  then show ?thesis by (auto simp: roundHalfEven_def Let_def)
qed

lemma roundHalfEven_le_int: "y \<le> of_int n \<Longrightarrow> roundHalfEven y \<le> n"
  using roundHalfEven_mono [of y "of_int n"] by (simp add: roundHalfEven_of_int)

lemma roundHalfEven_ge_int: "of_int n \<le> y \<Longrightarrow> n \<le> roundHalfEven y"
  using roundHalfEven_mono [of "of_int n" y] by (simp add: roundHalfEven_of_int)

lemma ulp_pos: "0 < ulp a"
  by (simp add: ulp_def pow2_pos)

lemma fl_pos: "0 < x \<Longrightarrow> fl x = of_int (roundHalfEven (x / ulp x)) * ulp x"
  by (simp add: fl_def)

lemma fl_nonneg: "0 \<le> x \<Longrightarrow> 0 \<le> fl x"
proof (cases "x = 0")
  case True
  then show ?thesis by (simp add: fl_def)
next
  case False
  assume "0 \<le> x"
  with False have x: "0 < x" by simp
  have "of_int 0 \<le> x / ulp x" using x ulp_pos [of x] by simp
  then have "0 \<le> roundHalfEven (x / ulp x)" by (rule roundHalfEven_ge_int)
  then show ?thesis using ulp_pos [of x] by (simp add: fl_pos [OF x])
qed

lemma pow2_split: "(2::rat) powi (e + 1) = 2 ^ 53 * 2 powi (e - 52)"
proof -
  have "e + 1 = 53 + (e - 52)" by simp
  then have "(2::rat) powi (e + 1) = 2 powi (53 + (e - 52))" by (rule arg_cong)
  also have "\<dots> = 2 powi 53 * 2 powi (e - 52)" by (subst power_int_add) simp_all
  finally show ?thesis by simp
qed

lemma pow2_split': "(2::rat) powi e = 2 ^ 52 * 2 powi (e - 52)"
proof -
  have "e = 52 + (e - 52)" by simp
  then have "(2::rat) powi e = 2 powi (52 + (e - 52))" by (rule arg_cong)
  also have "\<dots> = 2 powi 52 * 2 powi (e - 52)" by (subst power_int_add) simp_all
  finally show ?thesis by simp
qed

lemma fl_le_binade:
  assumes "0 < x"
  shows "fl x \<le> 2 powi (max (ilog2 x) (- 1022) + 1)"
proof -
  define e where "e = max (ilog2 x) (- 1022)"
  have u: "ulp x = 2 powi (e - 52)" by (simp add: ulp_def e_def)
  have "x < 2 powi (ilog2 x + 1)" using ilog2_bounds(2) [OF assms] .
  also have "\<dots> \<le> 2 powi (e + 1)" by (rule pow2_mono) (simp add: e_def)
  finally have "x \<le> 2 ^ 53 * ulp x" by (simp add: pow2_split u)
  then have "x / ulp x \<le> of_int (2 ^ 53)" using ulp_pos [of x] by (simp add: field_simps)
  then have "roundHalfEven (x / ulp x) \<le> 2 ^ 53" by (rule roundHalfEven_le_int)
  then have "(of_int (roundHalfEven (x / ulp x)) :: rat) \<le> of_int (2 ^ 53)"
    by (simp only: of_int_le_iff)
  then have "of_int (roundHalfEven (x / ulp x)) * ulp x \<le> 2 ^ 53 * ulp x"
    using ulp_pos [of x] by simp
  then show ?thesis by (simp add: fl_pos [OF assms] pow2_split u e_def [symmetric])
qed

lemma fl_ge_binade:
  assumes "0 < x" and "- 1022 \<le> ilog2 x"
  shows "2 powi (ilog2 x) \<le> fl x"
proof -
  have u: "ulp x = 2 powi (ilog2 x - 52)" using assms(2) by (simp add: ulp_def max_def)
  have "2 ^ 52 * ulp x \<le> x" using ilog2_bounds(1) [OF assms(1)] pow2_split' [of "ilog2 x"] u by simp
  then have "of_int (2 ^ 52) \<le> x / ulp x" using ulp_pos [of x] by (simp add: field_simps)
  then have "2 ^ 52 \<le> roundHalfEven (x / ulp x)" by (rule roundHalfEven_ge_int)
  then have "(of_int (2 ^ 52) :: rat) \<le> of_int (roundHalfEven (x / ulp x))"
    by (simp only: of_int_le_iff)
  then have "2 ^ 52 * ulp x \<le> of_int (roundHalfEven (x / ulp x)) * ulp x"
    using ulp_pos [of x] by simp
  then show ?thesis using pow2_split' [of "ilog2 x"] u by (simp add: fl_pos [OF assms(1)])
qed

lemma fl_mono:
  assumes "0 \<le> x" and "x \<le> y"
  shows "fl x \<le> fl y"
proof (cases "x = 0")
  case True
  then show ?thesis using fl_nonneg [of y] assms by (simp add: fl_def)
next
  case False
  with assms have x: "0 < x" and y: "0 < y" by simp_all
  define ex where "ex = max (ilog2 x) (- 1022)"
  define ey where "ey = max (ilog2 y) (- 1022)"
  have le: "ex \<le> ey" using ilog2_mono [OF x assms(2)] by (simp add: ex_def ey_def)
  show ?thesis
  proof (cases "ex = ey")
    case True
    then have u: "ulp x = ulp y" by (simp add: ulp_def ex_def ey_def)
    have "x / ulp y \<le> y / ulp y" using assms(2) ulp_pos [of y] by (simp add: divide_right_mono)
    then have "roundHalfEven (x / ulp y) \<le> roundHalfEven (y / ulp y)" by (rule roundHalfEven_mono)
    then have "(of_int (roundHalfEven (x / ulp y)) :: rat) \<le> of_int (roundHalfEven (y / ulp y))"
      by (simp only: of_int_le_iff)
    then show ?thesis using ulp_pos [of y] by (simp add: fl_pos [OF x] fl_pos [OF y] u)
  next
    case False
    with le have lt: "ex + 1 \<le> ey" by simp
    then have ey: "ey = ilog2 y" and big: "- 1022 \<le> ilog2 y" by (simp_all add: ex_def ey_def)
    have "fl x \<le> 2 powi (ex + 1)" using fl_le_binade [OF x] by (simp add: ex_def)
    also have "\<dots> \<le> 2 powi ey" using lt by (rule pow2_mono)
    also have "\<dots> \<le> fl y" using fl_ge_binade [OF y big] by (simp add: ey)
    finally show ?thesis .
  qed
qed

lemma fl_consts:
  "fl 1800 = 1800" "fl 3600 = 3600" "fl 5400 = 5400" "fl 30 = 30" "fl 15 = 15" "fl 45 = 45"
  by code_simp+

lemma fl_zero: "fl 0 = 0"
  by (simp add: fl_def)

lemma fl_tenth: "1 / 10 \<le> fl (1 / 10)" "fl (fl (1 / 10)) = fl (1 / 10)" "0 \<le> fl (3 / 10)"
  by code_simp+

lemma fl_zero_mode_max:
  "fl (fl (1 / 10) + fl (maxBelowOne * fl (3 / 10))) < 2 / 5"
  by code_simp

lemma float_below_one:
  assumes "isFloat64 u" and "u < 1"
  shows "u \<le> maxBelowOne"
proof (cases "u < 1 / 2")
  case True
  then show ?thesis by (simp add: maxBelowOne_def)
next
  case False
  then have half: "1 / 2 \<le> u" by simp
  then have u0: "0 < u" by simp
  have "ilog2 u = - 1"
    using half assms(2) by (intro ilog2_unique) (simp_all add: power_int_def)
  then have ul: "ulp u = 1 / 2 ^ 53"
    by (simp add: ulp_def power_int_def field_simps)
  define n where "n = roundHalfEven (u / ulp u)"
  have "u = of_int n * ulp u"
    using assms(1) by (simp add: isFloat64_def fl_pos [OF u0] n_def)
  then have un: "u = of_int n / 2 ^ 53" by (simp add: ul)
  with assms(2) have "(of_int n :: rat) < of_int (2 ^ 53)" by (simp add: field_simps)
  then have "n < 2 ^ 53" by (simp only: of_int_less_iff)
  then have "n \<le> 2 ^ 53 - 1" by simp
  then have "(of_int n :: rat) \<le> of_int (2 ^ 53 - 1)" by (simp only: of_int_le_iff)
  then show ?thesis by (simp add: un maxBelowOne_def field_simps)
qed

lemma fmul_range:
  assumes "0 \<le> u" and "u \<le> b" and "0 \<le> c"
  shows "0 \<le> fmul u c" and "fmul u c \<le> fl (b * c)"
proof -
  have "0 \<le> u * c" using assms by simp
  then show "0 \<le> fmul u c" unfolding fmul_def by (rule fl_nonneg)
  have "u * c \<le> b * c" using assms by (simp add: mult_right_mono)
  with \<open>0 \<le> u * c\<close> show "fmul u c \<le> fl (b * c)" unfolding fmul_def by (rule fl_mono)
qed

lemma fadd_range:
  assumes "0 \<le> a" and "0 \<le> p" and "p \<le> q"
  shows "fl a \<le> fadd a p" and "fadd a p \<le> fl (a + q)"
proof -
  show "fl a \<le> fadd a p" unfolding fadd_def using assms by (intro fl_mono) simp_all
  show "fadd a p \<le> fl (a + q)" unfolding fadd_def using assms by (intro fl_mono) simp_all
qed

lemma attempt_duration_cases:
  assumes "isFloat64 u" and "0 \<le> u" and "u < 1"
  shows "15 \<le> attemptDurationOf ''legit'' u \<and> attemptDurationOf ''legit'' u \<le> 45
     \<and> 3600 \<le> attemptDurationOf ''hour'' u \<and> attemptDurationOf ''hour'' u \<le> 5400
     \<and> 1 / 10 \<le> attemptDurationOf ''zero'' u \<and> attemptDurationOf ''zero'' u < 2 / 5
     \<and> (timeMode \<noteq> ''legit'' \<and> timeMode \<noteq> ''hour'' \<and> timeMode \<noteq> ''zero''
          \<longrightarrow> attemptDurationOf timeMode u = 15)"
proof -
  have u1: "u \<le> 1" using assms(3) by simp
  have um: "u \<le> maxBelowOne" using float_below_one [OF assms(1,3)] .
  have legit: "15 \<le> attemptDurationOf ''legit'' u \<and> attemptDurationOf ''legit'' u \<le> 45"
  proof -
    have p: "0 \<le> fmul u 30" "fmul u 30 \<le> 30"
      using fmul_range [OF assms(2) u1, of 30] by (simp_all add: fl_consts)
    from fadd_range [of 15, OF _ p] show ?thesis
      by (simp add: attemptDurationOf_def fl_consts)
  qed
  have hour: "3600 \<le> attemptDurationOf ''hour'' u \<and> attemptDurationOf ''hour'' u \<le> 5400"
  proof -
    have p: "0 \<le> fmul u 1800" "fmul u 1800 \<le> 1800"
      using fmul_range [OF assms(2) u1, of 1800] by (simp_all add: fl_consts)
    from fadd_range [of 3600, OF _ p] show ?thesis
      by (simp add: attemptDurationOf_def fl_consts)
  qed
  have zero: "1 / 10 \<le> attemptDurationOf ''zero'' u \<and> attemptDurationOf ''zero'' u < 2 / 5"
  proof -
    have p: "0 \<le> fmul u (fl (3 / 10))" "fmul u (fl (3 / 10)) \<le> fl (maxBelowOne * fl (3 / 10))"
      using fmul_range [OF assms(2) um fl_tenth(3)] by simp_all
    have a0: "0 \<le> fl (1 / 10)" using fl_tenth(1) by simp
    from fadd_range [OF a0 p]
    have "fl (fl (1 / 10)) \<le> attemptDurationOf ''zero'' u"
      and "attemptDurationOf ''zero'' u \<le> fl (fl (1 / 10) + fl (maxBelowOne * fl (3 / 10)))"
      by (simp_all add: attemptDurationOf_def)
    with fl_tenth(1,2) fl_zero_mode_max show ?thesis by simp
  qed
  have other: "timeMode \<noteq> ''legit'' \<and> timeMode \<noteq> ''hour'' \<and> timeMode \<noteq> ''zero''
          \<longrightarrow> attemptDurationOf timeMode u = 15"
    by (simp add: attemptDurationOf_def)
  from legit hour zero other show ?thesis by blast
qed

lemma isFloat64_quarter: "isFloat64 (1 / 4)"
  unfolding isFloat64_def by code_simp

lemma submitSolution_duration:
  "events (snd (submitSolution env cookie pid strategy w))
     = events w @ [EvSubmitSolution cookie pid
                     (attemptDurationOf (TimeMode strategy) (randFloat64 env (nRand w)))]"
  "fst (submitSolution env cookie pid strategy w) = Inr (rs, d)
     \<Longrightarrow> d = attemptDurationOf (TimeMode strategy) (randFloat64 env (nRand w))"
  by (auto simp: submitSolution_def Let_def split: sum.splits)

lemma isFloat64_quarter': "isFloat64 (randFloat64 envSteady (nRand worldStart))"
  using isFloat64_quarter by (simp add: envSteady_def)

lemma edge_durations:
  "attemptDurationOf ''hour'' maxBelowOne = 5400" "attemptDurationOf ''legit'' maxBelowOne = 45"
  by code_simp+

lemma edge_draw: "isFloat64 maxBelowOne" "0 \<le> maxBelowOne" "maxBelowOne < 1"
  unfolding isFloat64_def by code_simp+

text \<open>
  Claim C6, as stated, fails at the upper ends of the legit and hour ranges: when
  \<^verbatim>\<open>rand.Float64()\<close> returns the largest float64 below 1, the product rounds to the double
  just below 1800 (just below 30) and the sum rounds up to exactly 5400 (exactly 45).
\<close>

theorem submit_duration_counterexample:
  "isFloat64 (randFloat64 envEdge (nRand worldStart))
   \<and> 0 \<le> randFloat64 envEdge (nRand worldStart) \<and> randFloat64 envEdge (nRand worldStart) < 1
   \<and> TimeMode strategyHour = ''hour''
   \<and> fst (submitSolution envEdge ''c'' ''p1'' strategyHour worldStart) = Inr ([1500], 5400)
   \<and> TimeMode strategyDefault = ''legit''
   \<and> fst (submitSolution envEdge ''c'' ''p1'' strategyDefault worldStart) = Inr ([1500], 45)"
  using edge_durations edge_draw
  by (simp add: submitSolution_def envEdge_def envSteady_def worldStart_def strategyHour_def
      strategyDefault_def TimeModeHour_def TimeModeLegit_def Let_def)

text \<open>
  Claim C6, amended. For every submission whose draw is a float64 in \<open>[0, 1)\<close>, the
  attempt duration that \<^verbatim>\<open>submitSolution\<close> sends and returns lies in \<open>[15, 45]\<close> for the time
  mode "legit", in \<open>[3600, 5400]\<close> for "hour", in \<open>[0.1, 0.4)\<close> for "zero", and is 15 for
  every other time mode.
\<close>

theorem submit_duration_bounds:
  assumes "isFloat64 (randFloat64 env (nRand w))"
    and "0 \<le> randFloat64 env (nRand w)" and "randFloat64 env (nRand w) < 1"
  shows "\<exists>d. events (snd (submitSolution env cookie pid strategy w))
               = events w @ [EvSubmitSolution cookie pid d]
     \<and> (\<forall>rs d'. fst (submitSolution env cookie pid strategy w) = Inr (rs, d') \<longrightarrow> d' = d)
     \<and> (TimeMode strategy = ''legit'' \<longrightarrow> 15 \<le> d \<and> d \<le> 45)
     \<and> (TimeMode strategy = ''hour'' \<longrightarrow> 3600 \<le> d \<and> d \<le> 5400)
     \<and> (TimeMode strategy = ''zero'' \<longrightarrow> 1 / 10 \<le> d \<and> d < 2 / 5)
     \<and> (TimeMode strategy \<noteq> ''legit'' \<and> TimeMode strategy \<noteq> ''hour''
          \<and> TimeMode strategy \<noteq> ''zero'' \<longrightarrow> d = 15)"
proof -
  define d where "d = attemptDurationOf (TimeMode strategy) (randFloat64 env (nRand w))"
  have e: "events (snd (submitSolution env cookie pid strategy w))
               = events w @ [EvSubmitSolution cookie pid d]"
    by (simp add: submitSolution_duration(1) d_def)
  have r: "\<forall>rs d'. fst (submitSolution env cookie pid strategy w) = Inr (rs, d') \<longrightarrow> d' = d"
    using submitSolution_duration(2) [of env cookie pid strategy w] by (simp add: d_def)
  from attempt_duration_cases [OF assms, of "TimeMode strategy"]
  have "(TimeMode strategy = ''legit'' \<longrightarrow> 15 \<le> d \<and> d \<le> 45)
     \<and> (TimeMode strategy = ''hour'' \<longrightarrow> 3600 \<le> d \<and> d \<le> 5400)
     \<and> (TimeMode strategy = ''zero'' \<longrightarrow> 1 / 10 \<le> d \<and> d < 2 / 5)
     \<and> (TimeMode strategy \<noteq> ''legit'' \<and> TimeMode strategy \<noteq> ''hour''
          \<and> TimeMode strategy \<noteq> ''zero'' \<longrightarrow> d = 15)"
    by (auto simp: d_def)
  with e r show ?thesis by blast
qed

theorem submit_duration_bounds_witness:
  "isFloat64 (randFloat64 envSteady (nRand worldStart))
   \<and> randFloat64 envSteady (nRand worldStart) = 1 / 4
   \<and> (\<exists>d. events (snd (submitSolution envSteady ''c'' ''p1'' strategyDefault worldStart))
             = [EvSubmitSolution ''c'' ''p1'' d] \<and> 15 \<le> d \<and> d \<le> 45)
   \<and> (\<exists>d. events (snd (submitSolution envSteady ''c'' ''p1'' strategyHour worldStart))
             = [EvSubmitSolution ''c'' ''p1'' d] \<and> 3600 \<le> d \<and> d \<le> 5400)
   \<and> (\<exists>d. events (snd (submitSolution envSteady ''c'' ''p1'' strategyClimb worldStart))
             = [EvSubmitSolution ''c'' ''p1'' d] \<and> 1 / 10 \<le> d \<and> d < 2 / 5)
   \<and> (\<exists>d. events (snd (submitSolution envSteady ''c'' ''p1''
                          (strategyDefault\<lparr>TimeMode := ''fast''\<rparr>) worldStart))
             = [EvSubmitSolution ''c'' ''p1'' d] \<and> d = 15)"
proof -
  have q: "randFloat64 envSteady (nRand worldStart) = 1 / 4"
    by (simp add: envSteady_def)
  have b: "0 \<le> randFloat64 envSteady (nRand worldStart)" "randFloat64 envSteady (nRand worldStart) < 1"
    by (simp_all add: q)
  note t = submit_duration_bounds [OF isFloat64_quarter' b, of "''c''" "''p1''"]
  have e: "events worldStart = []" by (simp add: worldStart_def)
  from t [of strategyDefault]
  have 1: "\<exists>d. events (snd (submitSolution envSteady ''c'' ''p1'' strategyDefault worldStart))
             = [EvSubmitSolution ''c'' ''p1'' d] \<and> 15 \<le> d \<and> d \<le> 45"
    by (auto simp: e strategyDefault_def TimeModeLegit_def)
  from t [of strategyHour]
  have 2: "\<exists>d. events (snd (submitSolution envSteady ''c'' ''p1'' strategyHour worldStart))
             = [EvSubmitSolution ''c'' ''p1'' d] \<and> 3600 \<le> d \<and> d \<le> 5400"
    by (auto simp: e strategyHour_def TimeModeHour_def)
  from t [of strategyClimb]
  have 3: "\<exists>d. events (snd (submitSolution envSteady ''c'' ''p1'' strategyClimb worldStart))
             = [EvSubmitSolution ''c'' ''p1'' d] \<and> 1 / 10 \<le> d \<and> d < 2 / 5"
    by (auto simp: e strategyClimb_def TimeModeZero_def)
  from t [of "strategyDefault\<lparr>TimeMode := ''fast''\<rparr>"]
  have 4: "\<exists>d. events (snd (submitSolution envSteady ''c'' ''p1''
                          (strategyDefault\<lparr>TimeMode := ''fast''\<rparr>) worldStart))
             = [EvSubmitSolution ''c'' ''p1'' d] \<and> d = 15"
    by (auto simp: e)
  from isFloat64_quarter' q 1 2 3 4 show ?thesis by blast
qed

section \<open>Stop by target rating\<close>

text \<open>
  Claim C3. For a strategy in stop-by-target-rating mode, assigned to an account that the
  cooldown gate lets through. With a target \<open>R > 0\<close>: when the sessions before the
  \<open>k\<close>-th succeed with a rating below \<open>R\<close> and the \<open>k\<close>-th succeeds with a rating of at least
  \<open>R\<close>, \<^verbatim>\<open>processAccount\<close> returns without error after exactly \<open>k + 1\<close> fetches and
  submissions: it stops at that session and runs no further one. With a target of 0 or
  less: a run that returns, returns an error, and while the sessions succeed the run
  does not return, whatever the fuel. In stop-by-puzzle-count mode a run that returns
  without error has met the count predicate.
\<close>

theorem rating_stop:
  assumes "strategies (StrategyName account) = Some strategy"
  shows "(StopMode strategy = StopModeRating \<and> 0 < TargetRating strategy
          \<and> \<not> onCooldown env account (snd (getTacticsStats env (Cookie account) w))
          \<and> (\<forall>i<k. sessionSucceeds env (nPuzzle w + i) (nSubmit w + i)
                    \<and> sessionRating env (nSubmit w + i) < TargetRating strategy)
          \<and> sessionSucceeds env (nPuzzle w + k) (nSubmit w + k)
          \<and> TargetRating strategy \<le> sessionRating env (nSubmit w + k)
          \<and> Suc k \<le> fuel
        \<longrightarrow> (\<exists>w' account' result.
               processAccount fuel env webhookURL strategies account w
                 = (w', Some (account', result))
               \<and> Error result = None \<and> PuzzlesSolved result = wrap64 (int (Suc k))
               \<and> nPuzzle w' = nPuzzle w + Suc k \<and> nSubmit w' = nSubmit w + Suc k))
     \<and> (StopMode strategy = StopModeRating \<and> TargetRating strategy \<le> 0
          \<and> processAccount fuel env webhookURL strategies account w = (w1, Some (account1, result1))
        \<longrightarrow> Error result1 \<noteq> None)
     \<and> (StopMode strategy = StopModeRating \<and> TargetRating strategy \<le> 0
          \<and> \<not> onCooldown env account (snd (getTacticsStats env (Cookie account) w))
          \<and> (\<forall>i<fuel. sessionSucceeds env (nPuzzle w + i) (nSubmit w + i))
        \<longrightarrow> snd (processAccount fuel env webhookURL strategies account w) = None)
     \<and> (StopMode strategy = StopModePuzzles
          \<and> processAccount fuel env webhookURL strategies account w = (w1, Some (account1, result1))
          \<and> Error result1 = None
        \<longrightarrow> 0 < PuzzlesPerDay strategy \<and> PuzzlesPerDay strategy \<le> PuzzlesSolved result1)"
proof (intro conjI impI)
  assume h: "StopMode strategy = StopModeRating \<and> 0 < TargetRating strategy
          \<and> \<not> onCooldown env account (snd (getTacticsStats env (Cookie account) w))
          \<and> (\<forall>i<k. sessionSucceeds env (nPuzzle w + i) (nSubmit w + i)
                    \<and> sessionRating env (nSubmit w + i) < TargetRating strategy)
          \<and> sessionSucceeds env (nPuzzle w + k) (nSubmit w + k)
          \<and> TargetRating strategy \<le> sessionRating env (nSubmit w + k)
          \<and> Suc k \<le> fuel"
  define w0 where "w0 = snd (getTacticsStats env (Cookie account) w)"
  have c0: "nPuzzle w0 = nPuzzle w" "nSubmit w0 = nSubmit w" by (simp_all add: w0_def)
  from h have mode: "StopMode strategy = StopModeRating" and R: "0 < TargetRating strategy"
    and gate: "\<not> onCooldown env account (snd (getTacticsStats env (Cookie account) w))"
    and fuel: "Suc k \<le> fuel"
    and before: "\<forall>i<k. sessionSucceeds env (nPuzzle w0 + i) (nSubmit w0 + i)
                    \<and> sessionRating env (nSubmit w0 + i) < TargetRating strategy"
    and at1: "sessionSucceeds env (nPuzzle w0 + k) (nSubmit w0 + k)"
    and at2: "TargetRating strategy \<le> sessionRating env (nSubmit w0 + k)"
    by (simp_all add: c0)
  from loop_rating [OF mode R fuel before at1 at2, of account 0] obtain w2 where
    l: "processLoop fuel env account strategy 0 w0 = (w2, Some (wrap64 (0 + int (Suc k)), None))"
    and c: "nPuzzle w2 = nPuzzle w0 + Suc k" "nSubmit w2 = nSubmit w0 + Suc k"
    by blast
  show "\<exists>w' account' result.
               processAccount fuel env webhookURL strategies account w
                 = (w', Some (account', result))
               \<and> Error result = None \<and> PuzzlesSolved result = wrap64 (int (Suc k))
               \<and> nPuzzle w' = nPuzzle w + Suc k \<and> nSubmit w' = nSubmit w + Suc k"
    using processAccount_finished [where strategies = strategies and a = account
        and url = webhookURL, OF assms gate l [unfolded w0_def]] c c0
    by (simp add: Let_def)
next
  assume h: "StopMode strategy = StopModeRating \<and> TargetRating strategy \<le> 0
          \<and> processAccount fuel env webhookURL strategies account w = (w1, Some (account1, result1))"
  then have run: "processAccount fuel env webhookURL strategies account w = (w1, Some (account1, result1))"
    by simp
  from assms run show "Error result1 \<noteq> None"
  proof (cases rule: processAccount_cases)
    case blocked
    then show ?thesis by simp
  next
    case (finished w2)
    show ?thesis
    proof
      assume "Error result1 = None"
      with finished(2) loop_exit_clean [of fuel env account strategy 0 _ w2 "PuzzlesSolved result1"]
      show False using h by (auto simp: StopModeRating_def StopModePuzzles_def)
    qed
  qed
next
  assume h: "StopMode strategy = StopModeRating \<and> TargetRating strategy \<le> 0
          \<and> \<not> onCooldown env account (snd (getTacticsStats env (Cookie account) w))
          \<and> (\<forall>i<fuel. sessionSucceeds env (nPuzzle w + i) (nSubmit w + i))"
  define w0 where "w0 = snd (getTacticsStats env (Cookie account) w)"
  have "\<forall>i<fuel. sessionSucceeds env (nPuzzle w0 + i) (nSubmit w0 + i)"
    using h by (simp add: w0_def)
  from loop_rating_runs_on [OF _ _ this, of strategy account 0] h
  have "snd (processLoop fuel env account strategy 0 w0) = None" by simp
  then obtain w2 where "processLoop fuel env account strategy 0 w0 = (w2, None)"
    by (cases "processLoop fuel env account strategy 0 w0") auto
  from processAccount_out_of_fuel [where strategies = strategies and a = account
      and url = webhookURL, OF assms _ this [unfolded w0_def]] h
  show "snd (processAccount fuel env webhookURL strategies account w) = None" by simp
next
  assume h: "StopMode strategy = StopModePuzzles
          \<and> processAccount fuel env webhookURL strategies account w = (w1, Some (account1, result1))
          \<and> Error result1 = None"
  then have run: "processAccount fuel env webhookURL strategies account w = (w1, Some (account1, result1))"
    by simp
  from assms run
  have "0 < PuzzlesPerDay strategy \<and> PuzzlesPerDay strategy \<le> PuzzlesSolved result1"
  proof (cases rule: processAccount_cases)
    case blocked
    with h show ?thesis by simp
  next
    case (finished w2)
    with h loop_exit_clean [of fuel env account strategy 0 _ w2 "PuzzlesSolved result1"]
    show ?thesis by (auto simp: StopModeRating_def StopModePuzzles_def)
  qed
  then show "0 < PuzzlesPerDay strategy" and "PuzzlesPerDay strategy \<le> PuzzlesSolved result1"
    by simp_all
qed

theorem rating_stop_witness:
  "(\<exists>w' account' result.
      processAccount 4 envSteady [] strategies3 accountClimb worldStart
        = (w', Some (account', result))
      \<and> Error result = None \<and> PuzzlesSolved result = 4 \<and> nPuzzle w' = 4 \<and> nSubmit w' = 4)
   \<and> (\<exists>w1 account1 result1.
        processAccount 4 envFlaky [] strategies3 accountOpen worldStart
          = (w1, Some (account1, result1))
        \<and> Error result1 \<noteq> None)
   \<and> snd (processAccount 4 envSteady [] strategies3 accountOpen worldStart) = None
   \<and> (\<exists>w1 account1 result1.
        processAccount 3 envSteady [] strategies3 accountFresh worldStart
          = (w1, Some (account1, result1))
        \<and> Error result1 = None \<and> 0 < PuzzlesPerDay strategyDefault
        \<and> PuzzlesPerDay strategyDefault \<le> PuzzlesSolved result1)"
proof (intro conjI)
  have s: "strategies3 (StrategyName accountClimb) = Some strategyClimb"
    by (simp add: fixture_defs)
  have r: "\<forall>i<3. sessionSucceeds envSteady (nPuzzle worldStart + i) (nSubmit worldStart + i)
        \<and> sessionRating envSteady (nSubmit worldStart + i) < TargetRating strategyClimb"
    by (auto simp: fixture_defs sessionSucceeds_def sessionRating_def)
  show "\<exists>w' account' result.
      processAccount 4 envSteady [] strategies3 accountClimb worldStart
        = (w', Some (account', result))
      \<and> Error result = None \<and> PuzzlesSolved result = 4 \<and> nPuzzle w' = 4 \<and> nSubmit w' = 4"
    using rating_stop [where strategies = strategies3 and account = accountClimb and env = envSteady
        and w = worldStart and k = 3 and fuel = 4 and webhookURL = "[]", OF s] r
    by (simp add: fixture_defs sessionSucceeds_def sessionRating_def onCooldown_def IsZero_def
        StopModeRating_def wrap64_def)
next
  have s: "strategies3 (StrategyName accountOpen) = Some strategyOpen"
    by (simp add: fixture_defs)
  obtain w1 a1 r1 where
    ev: "processAccount 4 envFlaky [] strategies3 accountOpen worldStart = (w1, Some (a1, r1))"
    using run_open_flaky by blast
  from rating_stop [where strategies = strategies3 and account = accountOpen and env = envFlaky
        and w = worldStart and fuel = 4 and webhookURL = "[]" and ?w1.0 = w1
        and ?account1.0 = a1 and ?result1.0 = r1, OF s] ev
  have "Error r1 \<noteq> None"
    by (simp add: strategyOpen_def StopModeRating_def)
  with ev show "\<exists>w1 account1 result1.
        processAccount 4 envFlaky [] strategies3 accountOpen worldStart
          = (w1, Some (account1, result1))
        \<and> Error result1 \<noteq> None"
    by blast
next
  have s: "strategies3 (StrategyName accountOpen) = Some strategyOpen"
    by (simp add: fixture_defs)
  show "snd (processAccount 4 envSteady [] strategies3 accountOpen worldStart) = None"
    using rating_stop [where strategies = strategies3 and account = accountOpen and env = envSteady
        and w = worldStart and fuel = 4 and webhookURL = "[]", OF s]
    by (simp add: fixture_defs sessionSucceeds_def onCooldown_def IsZero_def StopModeRating_def)
next
  have s: "strategies3 (StrategyName accountFresh) = Some strategyDefault"
    by (simp add: fixture_defs)
  have m: "StopMode strategyDefault = StopModePuzzles"
    by (simp add: strategyDefault_def)
  obtain w1 a1 r1 where
    ev: "processAccount 3 envSteady [] strategies3 accountFresh worldStart = (w1, Some (a1, r1))"
    and ok: "Error r1 = None"
    using run_default_fresh by simp
  from rating_stop [where strategies = strategies3 and account = accountFresh and env = envSteady
        and w = worldStart and fuel = 3 and webhookURL = "[]" and ?w1.0 = w1
        and ?account1.0 = a1 and ?result1.0 = r1, OF s] m ev ok
  have "0 < PuzzlesPerDay strategyDefault \<and> PuzzlesPerDay strategyDefault \<le> PuzzlesSolved r1"
    by blast
  with ev ok show "\<exists>w1 account1 result1.
        processAccount 3 envSteady [] strategies3 accountFresh worldStart
          = (w1, Some (account1, result1))
        \<and> Error result1 = None \<and> 0 < PuzzlesPerDay strategyDefault
        \<and> PuzzlesPerDay strategyDefault \<le> PuzzlesSolved result1"
    by blast
qed

section \<open>The cooldown gate\<close>

text \<open>
  Claim C4, as stated, fails: a free account that ran one hour ago is stopped by the gate,
  yet two requests are sent for it, the stats request before the gate and the stats
  request for the completion report.
\<close>

theorem cooldown_requests_counterexample:
  "\<not> IsPremium accountRecent
   \<and> Since envSteady (snd (getTacticsStats envSteady (Cookie accountRecent) worldStart))
        (LastRun accountRecent) = Hour
   \<and> events (fst (processAccount 3 envSteady [] strategies3 accountRecent worldStart))
       = [EvGetTacticsStats ''c'', EvGetTacticsStats ''c'']"
  by (simp add: fixture_defs run_defs Hour_def Second_def minDuration_def maxDuration_def Let_def)

text \<open>
  Claim C4, amended. A free account with a non-zero last-run time less than 24 hours
  before the clock at the gate: \<^verbatim>\<open>processAccount\<close> returns, for every fuel, the cooldown error
  and zero solved puzzles, with the account unchanged; it sends no puzzle fetch and no
  submission, only the two stats requests and, to a Discord URL, the completion webhook.
  A premium account is never stopped by the gate: with fuel for one iteration, a puzzle
  fetch is sent.
\<close>

theorem cooldown_gate:
  assumes "strategies (StrategyName account) = Some strategy"
  shows "(\<not> IsPremium account \<and> \<not> IsZero (LastRun account)
          \<and> Since env (snd (getTacticsStats env (Cookie account) w)) (LastRun account) < 24 * Hour
        \<longrightarrow> (\<exists>w' result.
               processAccount fuel env webhookURL strategies account w
                 = (w', Some (account, result))
               \<and> Error result = Some (''on cooldown until ''
                                         @ formatRFC822 env (Add (LastRun account) (24 * Hour)))
               \<and> isCooldown result \<and> PuzzlesSolved result = 0
               \<and> nPuzzle w' = nPuzzle w \<and> nSubmit w' = nSubmit w \<and> nStats w' = nStats w + 2
               \<and> events w' = events w
                    @ [EvGetTacticsStats (Cookie account), EvGetTacticsStats (Cookie account)]
                    @ (if strings_HasPrefix webhookURL ''https://discord.com/api/webhooks/''
                       then [EvWebhook (''Report for '' @ Username account) 16776960] else [])))
     \<and> (IsPremium account \<and> 0 < fuel
        \<longrightarrow> nPuzzle w < nPuzzle (fst (processAccount fuel env webhookURL strategies account w)))"
proof (intro conjI impI)
  assume h: "\<not> IsPremium account \<and> \<not> IsZero (LastRun account)
          \<and> Since env (snd (getTacticsStats env (Cookie account) w)) (LastRun account) < 24 * Hour"
  then have b: "onCooldown env account (snd (getTacticsStats env (Cookie account) w))"
    by (simp add: onCooldown_def)
  show "\<exists>w' result.
               processAccount fuel env webhookURL strategies account w
                 = (w', Some (account, result))
               \<and> Error result = Some (''on cooldown until ''
                                         @ formatRFC822 env (Add (LastRun account) (24 * Hour)))
               \<and> isCooldown result \<and> PuzzlesSolved result = 0
               \<and> nPuzzle w' = nPuzzle w \<and> nSubmit w' = nSubmit w \<and> nStats w' = nStats w + 2
               \<and> events w' = events w
                    @ [EvGetTacticsStats (Cookie account), EvGetTacticsStats (Cookie account)]
                    @ (if strings_HasPrefix webhookURL ''https://discord.com/api/webhooks/''
                       then [EvWebhook (''Report for '' @ Username account) 16776960] else [])"
    using processAccount_blocked [where strategies = strategies and a = account
        and url = webhookURL and fuel = fuel, OF assms b] contains_cooldown
    by (simp add: isCooldown_def events_SendWebhook buildCompletionEmbed_def)
next
  assume h: "IsPremium account \<and> 0 < fuel"
  then have "\<not> onCooldown env account (snd (getTacticsStats env (Cookie account) w))"
    by (simp add: onCooldown_def)
  from not_blocked_fetches [where strategies = strategies and a = account, OF assms this] h
  show "nPuzzle w < nPuzzle (fst (processAccount fuel env webhookURL strategies account w))"
    by simp
qed

theorem cooldown_gate_witness:
  "(\<exists>w' result.
      processAccount 3 envSteady [] strategies3 accountRecent worldStart
        = (w', Some (accountRecent, result))
      \<and> isCooldown result \<and> PuzzlesSolved result = 0 \<and> nPuzzle w' = 0 \<and> nSubmit w' = 0
      \<and> nStats w' = 2
      \<and> events w' = [EvGetTacticsStats ''c'', EvGetTacticsStats ''c''])
   \<and> 0 < nPuzzle (fst (processAccount 3 envSteady [] strategies3 accountPremium worldStart))"
proof (intro conjI)
  have s: "strategies3 (StrategyName accountRecent) = Some strategyDefault"
    by (simp add: fixture_defs)
  have g: "\<not> IsPremium accountRecent \<and> \<not> IsZero (LastRun accountRecent)
      \<and> Since envSteady (snd (getTacticsStats envSteady (Cookie accountRecent) worldStart))
           (LastRun accountRecent) < 24 * Hour"
    by (simp add: fixture_defs run_defs Hour_def Second_def minDuration_def maxDuration_def)
  from cooldown_gate [where strategies = strategies3 and account = accountRecent
      and env = envSteady and w = worldStart and fuel = 3 and webhookURL = "[]", OF s] g
  show "\<exists>w' result.
      processAccount 3 envSteady [] strategies3 accountRecent worldStart
        = (w', Some (accountRecent, result))
      \<and> isCooldown result \<and> PuzzlesSolved result = 0 \<and> nPuzzle w' = 0 \<and> nSubmit w' = 0
      \<and> nStats w' = 2
      \<and> events w' = [EvGetTacticsStats ''c'', EvGetTacticsStats ''c'']"
    by (auto simp: worldStart_def accountRecent_def accountFresh_def)
next
  have s: "strategies3 (StrategyName accountPremium) = Some strategyDefault"
    by (simp add: fixture_defs)
  from cooldown_gate [where strategies = strategies3 and account = accountPremium
      and env = envSteady and w = worldStart and fuel = 3 and webhookURL = "[]", OF s]
  show "0 < nPuzzle (fst (processAccount 3 envSteady [] strategies3 accountPremium worldStart))"
    by (simp add: worldStart_def accountPremium_def)
qed

text \<open>
  Claim C10. An account whose \<^verbatim>\<open>LastRun\<close> is the zero time is not stopped by the cooldown
  gate, premium or not: the gate's condition is false, and with fuel for one iteration
  the run sends a puzzle fetch.
\<close>

theorem fresh_account_not_blocked:
  assumes "strategies (StrategyName account) = Some strategy"
    and "IsZero (LastRun account)" and "0 < fuel"
  shows "\<not> onCooldown env account (snd (getTacticsStats env (Cookie account) w))
     \<and> nPuzzle w < nPuzzle (fst (processAccount fuel env webhookURL strategies account w))"
proof -
  have g: "\<not> onCooldown env account (snd (getTacticsStats env (Cookie account) w))"
    using assms(2) by (simp add: onCooldown_def)
  from not_blocked_fetches [where strategies = strategies and a = account, OF assms(1) g assms(3)] g
  show ?thesis by simp
qed

theorem fresh_account_not_blocked_witness:
  "IsZero (LastRun accountFresh) \<and> \<not> IsPremium accountFresh
   \<and> 0 < nPuzzle (fst (processAccount 3 envSteady [] strategies3 accountFresh worldStart))"
proof -
  have s: "strategies3 (StrategyName accountFresh) = Some strategyDefault"
    by (simp add: fixture_defs)
  have z: "IsZero (LastRun accountFresh)"
    by (simp add: accountFresh_def IsZero_def)
  from fresh_account_not_blocked [where strategies = strategies3 and account = accountFresh
      and env = envSteady and w = worldStart and fuel = 3 and webhookURL = "[]", OF s z] z
  show ?thesis
    by (simp add: worldStart_def accountFresh_def)
qed

section \<open>The last-run time\<close>

text \<open>
  Claim C5. The account that \<^verbatim>\<open>processAccount\<close> leaves behind is the account it was given
  with \<^verbatim>\<open>LastRun\<close> set to the clock at the end of the loop (the clock before the closing stats
  request and webhook) when the strategy exists, its \<^verbatim>\<open>PuzzlesPerDay\<close> is positive and the
  run ended without error; in every other case it is the account it was given.
\<close>

theorem last_run_update:
  assumes "processAccount fuel env webhookURL strategies account w = (w', Some (account', result))"
  shows "account' =
     (if (case strategies (StrategyName account) of
            None \<Rightarrow> False | Some strategy \<Rightarrow> 0 < PuzzlesPerDay strategy)
         \<and> Error result = None
      then account\<lparr>LastRun := wallClock env (length (events w') - opsAfterLoop webhookURL)\<rparr>
      else account)"
proof (cases "strategies (StrategyName account)")
  case None
  from processAccount_missing [where strategies = strategies and a = account, OF None,
      of fuel env webhookURL w] assms
  show ?thesis by (auto simp: None)
next
  case (Some strategy)
  from Some assms show ?thesis
  proof (cases rule: processAccount_cases)
    case blocked
    then show ?thesis by (simp add: Some)
  next
    case (finished w2)
    have "length (events w') - opsAfterLoop webhookURL = length (events w2)"
      using finished(4) by (simp add: length_events_after_loop)
    with finished(3) show ?thesis
      by (simp add: Some Now_def)
  qed
qed

theorem last_run_update_witness:
  "\<exists>w' result.
     processAccount 3 envSteady [] strategies3 accountFresh worldStart
       = (w', Some (accountFresh\<lparr>LastRun := 63900000012000000000\<rparr>, result))
     \<and> Error result = None \<and> length (events w') = 13 \<and> opsAfterLoop [] = 1
     \<and> wallClock envSteady 12 = 63900000012000000000"
  using last_run_update [OF run_default_fresh] run_default_fresh
  by (simp add: opsAfterLoop_def envSteady_def Second_def)

section \<open>The delay between puzzles\<close>

text \<open>
  Claim C7, at an input where the code departs from it. With the default strategy (paced
  submission, legit timing) and a draw of 0.25, the first puzzle reports 22.5 seconds,
  and the sleep that follows it lasts 22 seconds: \<^verbatim>\<open>time.Duration(f) * time.Second\<close> drops
  the fraction of \<open>f\<close> before it scales.
\<close>

theorem paced_sleep_truncates:
  "attemptDurationOf (TimeMode strategyDefault) (randFloat64 envSteady 0) = 45 / 2
   \<and> SubmitMode strategyDefault \<noteq> SubmitModeASAP
   \<and> take 5 (events (fst (processAccount 3 envSteady [] strategies3 accountFresh worldStart)))
       = [EvGetTacticsStats ''c'', EvGetTacticsStats ''c'', EvGetNextPuzzle ''c'',
          EvSubmitSolution ''c'' ''p1'' (45 / 2), EvSleep (22 * Second)]"
proof (intro conjI)
  show "attemptDurationOf (TimeMode strategyDefault) (randFloat64 envSteady 0) = 45 / 2"
    using duration_legit_quarter by (simp add: strategyDefault_def envSteady_def TimeModeLegit_def)
  show "SubmitMode strategyDefault \<noteq> SubmitModeASAP"
    by (simp add: strategyDefault_def SubmitModeLegit_def SubmitModeASAP_def)
  show "take 5 (events (fst (processAccount 3 envSteady [] strategies3 accountFresh worldStart)))
       = [EvGetTacticsStats ''c'', EvGetTacticsStats ''c'', EvGetNextPuzzle ''c'',
          EvSubmitSolution ''c'' ''p1'' (45 / 2), EvSleep (22 * Second)]"
    by (simp add: run_default_fresh Second_def)
qed

section \<open>Properties of the orchestrator\<close>

lemma runSolver_saves_input:
  "runSolver fuel env url dbAccounts strategies w = (w', Some run)
   \<Longrightarrow> savedAccounts run = dbAccounts"
  by (auto simp: runSolver_def Let_def split: prod.splits option.splits)

text \<open>
  Claim C1, at an input where the code departs from it. One fresh account with the
  default strategy, every session succeeding: the worker's copy ends with \<^verbatim>\<open>LastRun\<close> set,
  and the database that \<^verbatim>\<open>runSolver\<close> saves still holds the entry as loaded, with the zero
  \<^verbatim>\<open>LastRun\<close>.
\<close>

theorem last_run_not_persisted:
  "\<exists>w' run.
     runSolver 3 envSteady [] [(''alice'', accountFresh)] strategies3 worldStart = (w', Some run)
     \<and> map_of (workerCopies run) ''alice'' = Some (accountFresh\<lparr>LastRun := 63900000012000000000\<rparr>)
     \<and> map_of (savedAccounts run) ''alice'' = Some accountFresh
     \<and> LastRun accountFresh = 0
     \<and> map_of (savedAccounts run) ''alice'' \<noteq> map_of (workerCopies run) ''alice''"
proof -
  have z: "LastRun accountFresh = 0" by (simp add: accountFresh_def)
  have ne: "accountFresh \<noteq> accountFresh\<lparr>LastRun := 63900000012000000000\<rparr>"
  proof
    assume "accountFresh = accountFresh\<lparr>LastRun := 63900000012000000000\<rparr>"
    then have "LastRun accountFresh = LastRun (accountFresh\<lparr>LastRun := 63900000012000000000\<rparr>)"
      by simp
    with z show False by simp
  qed
  show ?thesis
    using z ne by (simp add: runSolver_def SendWebhook_def run_default_fresh)
qed

lemma aggregateStep_class:
  "aggregateStep (s, c, e) r =
     (s @ map successEntry (filter isSuccess [r]),
      c @ map AccountUsername (filter isCooldown [r]),
      e @ map AccountUsername (filter isHardError [r]))"
proof (cases "Error r")
  case None
  then show ?thesis
    by (cases "StrategyPtr r")
      (simp_all add: aggregateStep_def successEntry_def isSuccess_def isCooldown_def
        isHardError_def)
next
  case (Some msg)
  then show ?thesis
    by (simp add: aggregateStep_def isSuccess_def isCooldown_def isHardError_def)
qed

lemma aggregate_foldl:
  "foldl aggregateStep (s, c, e) rs =
     (s @ map successEntry (filter isSuccess rs),
      c @ map AccountUsername (filter isCooldown rs),
      e @ map AccountUsername (filter isHardError rs))"
proof (induction rs arbitrary: s c e)
  case Nil
  then show ?case by simp
next
  case (Cons r rs)
  have "foldl aggregateStep (s, c, e) (r # rs) = foldl aggregateStep (aggregateStep (s, c, e) r) rs"
    by simp
  also have "\<dots> = foldl aggregateStep
      (s @ map successEntry (filter isSuccess [r]),
       c @ map AccountUsername (filter isCooldown [r]),
       e @ map AccountUsername (filter isHardError [r])) rs"
    by (simp only: aggregateStep_class)
  also have "\<dots> = (s @ map successEntry (filter isSuccess (r # rs)),
      c @ map AccountUsername (filter isCooldown (r # rs)),
      e @ map AccountUsername (filter isHardError (r # rs)))"
    by (simp add: Cons.IH)
  finally show ?case .
qed

lemma one_class:
  "(if isSuccess r then \<not> isCooldown r \<and> \<not> isHardError r else isCooldown r \<noteq> isHardError r)"
  by (cases "Error r") (simp_all add: isSuccess_def isCooldown_def isHardError_def)

lemma length_three_filters:
  "length (filter isSuccess rs) + length (filter isCooldown rs) + length (filter isHardError rs)
     = length rs"
proof (induction rs)
  case Nil
  then show ?case by simp
next
  case (Cons r rs)
  with one_class [of r] show ?case by (auto split: if_splits)
qed

text \<open>
  Claim C8. The three slices that \<^verbatim>\<open>runSolver\<close> builds from the collected results are, in
  order of collection, the results without error (as formatted entries), the user names
  of the results whose error message contains "cooldown", and the user names of the
  results with any other error. Each result is in exactly one of the three classes, so
  the lengths add up to the number of results. The error of the cooldown gate contains
  "cooldown".
\<close>

theorem aggregation_partition:
  "aggregateResults results =
     (map successEntry (filter isSuccess results),
      map AccountUsername (filter isCooldown results),
      map AccountUsername (filter isHardError results))
   \<and> length (fst (aggregateResults results)) + length (fst (snd (aggregateResults results)))
       + length (snd (snd (aggregateResults results))) = length results
   \<and> (if isSuccess r then \<not> isCooldown r \<and> \<not> isHardError r else isCooldown r \<noteq> isHardError r)
   \<and> isSuccess r = (Error r = None)
   \<and> isCooldown (r\<lparr>Error := Some msg\<rparr>) = strings_Contains msg ''cooldown''
   \<and> isHardError (r\<lparr>Error := Some msg\<rparr>) = (\<not> strings_Contains msg ''cooldown'')
   \<and> isCooldown (r\<lparr>Error := Some (''on cooldown until '' @ formatted)\<rparr>)"
proof -
  have a: "aggregateResults results =
     (map successEntry (filter isSuccess results),
      map AccountUsername (filter isCooldown results),
      map AccountUsername (filter isHardError results))"
    by (simp add: aggregateResults_def aggregate_foldl)
  have c: "isCooldown (r\<lparr>Error := Some (''on cooldown until '' @ formatted)\<rparr>)"
    using contains_cooldown [of formatted] by (simp add: isCooldown_def)
  show ?thesis
    using one_class [of r] length_three_filters [of results] c
    by (simp add: a isSuccess_def isCooldown_def isHardError_def)
qed

end
